theory Spec2Isabelle
  imports Main
begin

section \<open>NodeAFK: online/away tracking over an idle-time sensor\<close>

text \<open>
  A shallow embedding of \<^verbatim>\<open>src/NodeAFK.js\<close>. The class \<^verbatim>\<open>NodeAFK\<close> becomes a record of
  its fields, and each method a function from the instance (and the JavaScript runtime it
  talks to) to the updated instance.

  Conventions of the embedding:
  \<^item> Times and durations that the program computes with (\<^verbatim>\<open>idleTime\<close>,
    \<^verbatim>\<open>inactivityDuration\<close>, \<^verbatim>\<open>Date.now()\<close>) are integers; the duration of a timed event,
    which the program obtains with \<^verbatim>\<open>Number\<close> from a string of digits, is a natural number.
    JavaScript numbers are doubles, which agree with this reading up to \<open>2^53\<close>.
  \<^item> A listener is a JavaScript function compared by identity; it is modelled by an
    identifier. A listener that is called is recorded in the emission that called it;
    listeners are taken to return normally and not to call back into the instance.
  \<^item> \<^verbatim>\<open>Date.now()\<close> is a clock \<open>clk\<close> read once per call: the \<open>n\<close>-th call of the run
    returns \<open>clk n\<close>, and the runtime counts the calls.
  \<^item> \<^verbatim>\<open>setInterval\<close>/\<^verbatim>\<open>clearInterval\<close> act on the runtime's list of live interval timers.
  \<^item> A \<^verbatim>\<open>throw\<close> is the outcome \<open>Threw\<close>; a method that throws returns the instance as it was
    at the \<^verbatim>\<open>throw\<close>.
\<close>

subsection \<open>Constants and data\<close>

definition STATUS_AWAY :: string where
  "STATUS_AWAY = ''away''"

definition STATUS_ONLINE :: string where
  "STATUS_ONLINE = ''online''"

type_synonym listener = nat
type_synonym timer_id = nat
type_synonym clock = "nat \<Rightarrow> int"

text \<open>An element of \<^verbatim>\<open>this.timedEvents\<close>: \<^verbatim>\<open>{ status, duration, listener }\<close>.\<close>

record timed_event =
  status :: string
  duration :: nat
  listener :: listener

text \<open>The argument of a \<^verbatim>\<open>status-change\<close> event.\<close>

datatype payload = StatusChange (previousStatus: string) (newStatus: string)

text \<open>
  One call of \<^verbatim>\<open>this.emit(name, arg)\<close>: the name, the argument, the listeners it invoked
  (in order), and the value of \<^verbatim>\<open>this.currentStatus\<close> that a listener reading the
  instance during the call sees.
\<close>

record emission =
  ev_name :: string
  ev_payload :: "payload option"
  ev_listeners :: "listener list"
  ev_seen_status :: "string option"

datatype error = InvalidStatus string

datatype outcome = Returned | Threw error

text \<open>
  The fields of an instance. \<^verbatim>\<open>undefined\<close> is \<open>None\<close>. \<open>events\<close> is the listener table
  of the \<^verbatim>\<open>EventEmitter\<close> base class: for each event name, its listeners in registration
  order.
\<close>

record NodeAFK =
  inactivityDuration :: int
  pollInterval :: int
  pollIntervalId :: "timer_id option"
  timedEvents :: "timed_event list"
  userLastCameOnlineAt :: "int option"
  currentStatus :: "string option"
  events :: "string \<Rightarrow> listener list"

text \<open>
  The part of the JavaScript runtime the instance acts on: how many times \<^verbatim>\<open>Date.now()\<close>
  has been called, the live interval timers (identifier and period), and the next timer
  identifier.
\<close>

record runtime =
  dateNowCalls :: nat
  intervals :: "(timer_id \<times> int) list"
  nextTimerId :: timer_id

subsection \<open>The runtime: clock and interval timers\<close>

definition Date_now :: "clock \<Rightarrow> runtime \<Rightarrow> int \<times> runtime" where
  "Date_now clk r = (clk (dateNowCalls r), r\<lparr>dateNowCalls := Suc (dateNowCalls r)\<rparr>)"

definition setInterval :: "int \<Rightarrow> runtime \<Rightarrow> timer_id \<times> runtime" where
  "setInterval ms r =
     (nextTimerId r,
      r\<lparr>intervals := intervals r @ [(nextTimerId r, ms)],
        nextTimerId := Suc (nextTimerId r)\<rparr>)"

definition clearInterval :: "timer_id \<Rightarrow> runtime \<Rightarrow> runtime" where
  "clearInterval t r = r\<lparr>intervals := filter (\<lambda>iv. fst iv \<noteq> t) (intervals r)\<rparr>"

subsection \<open>The EventEmitter base class\<close>

text \<open>
  \<^verbatim>\<open>super.on\<close> appends the listener to the list of the event; \<^verbatim>\<open>super.off\<close> removes one
  occurrence of it, the one added last; \<^verbatim>\<open>removeAllListeners()\<close> empties the table;
  \<^verbatim>\<open>emit\<close> calls the listeners of the event in order.
\<close>

definition removeLastOccurrence :: "'a \<Rightarrow> 'a list \<Rightarrow> 'a list" where
  "removeLastOccurrence x xs = rev (remove1 x (rev xs))"

definition super_on :: "string \<Rightarrow> listener \<Rightarrow> NodeAFK \<Rightarrow> NodeAFK" where
  "super_on eventName l s = s\<lparr>events := (events s)(eventName := events s eventName @ [l])\<rparr>"

definition super_off :: "string \<Rightarrow> listener \<Rightarrow> NodeAFK \<Rightarrow> NodeAFK" where
  "super_off eventName l s =
     s\<lparr>events := (events s)(eventName := removeLastOccurrence l (events s eventName))\<rparr>"

definition removeAllListeners :: "NodeAFK \<Rightarrow> NodeAFK" where
  "removeAllListeners s = s\<lparr>events := (\<lambda>_. [])\<rparr>"

definition emit :: "string \<Rightarrow> payload option \<Rightarrow> NodeAFK \<Rightarrow> emission" where
  "emit eventName arg s =
     \<lparr>ev_name = eventName, ev_payload = arg, ev_listeners = events s eventName,
      ev_seen_status = currentStatus s\<rparr>"

subsection \<open>setStatus and the constructor\<close>

text \<open>
  \<^verbatim>\<open>
  setStatus(status) {
    if (![STATUS_AWAY, STATUS_ONLINE].includes(status)) {
      throw new Error(`${status} is not a valid status`);
    }
    this.userLastCameOnlineAt = (status === STATUS_ONLINE) ? Date.now() : undefined;
    this.currentStatus = status;
  }
  \<close>
\<close>

definition setStatus ::
  "clock \<Rightarrow> string \<Rightarrow> NodeAFK \<times> runtime \<Rightarrow> outcome \<times> NodeAFK \<times> runtime" where
  "setStatus clk st sr =
     (let (s, r) = sr in
      if st \<notin> set [STATUS_AWAY, STATUS_ONLINE] then (Threw (InvalidStatus st), s, r)
      else
        let (last, r') =
              (if st = STATUS_ONLINE then (let (now, r') = Date_now clk r in (Some now, r'))
               else (None, r))
        in (Returned, s\<lparr>userLastCameOnlineAt := last, currentStatus := Some st\<rparr>, r'))"

text \<open>
  The constructor; an omitted argument (\<open>None\<close>) takes its default. It returns the new
  instance, or the error that \<^verbatim>\<open>setStatus\<close> threw (and then there is no instance).
\<close>

definition constructor ::
  "clock \<Rightarrow> int \<Rightarrow> int option \<Rightarrow> string option \<Rightarrow> runtime \<Rightarrow> error + NodeAFK \<times> runtime" where
  "constructor clk inactivity pollInterval_arg initialStatus_arg r =
     (let pollInterval' = (case pollInterval_arg of None \<Rightarrow> 1000 | Some p \<Rightarrow> p);
          initialStatus = (case initialStatus_arg of None \<Rightarrow> STATUS_ONLINE | Some i \<Rightarrow> i);
          this = \<lparr>inactivityDuration = inactivity, pollInterval = pollInterval',
                  pollIntervalId = None, timedEvents = [], userLastCameOnlineAt = None,
                  currentStatus = None, events = (\<lambda>_. [])\<rparr>
      in case setStatus clk initialStatus (this, r) of
           (Threw e, _) \<Rightarrow> Inl e
         | (Returned, s, r') \<Rightarrow> Inr (s, r'))"

subsection \<open>init and destroy\<close>

definition destroy :: "NodeAFK \<times> runtime \<Rightarrow> NodeAFK \<times> runtime" where
  "destroy sr =
     (let (s, r) = sr;
          r' = (case pollIntervalId s of Some t \<Rightarrow> clearInterval t r | None \<Rightarrow> r);
          s' = s\<lparr>timedEvents := []\<rparr>
      in (removeAllListeners s', r'))"

definition init :: "NodeAFK \<times> runtime \<Rightarrow> NodeAFK \<times> runtime" where
  "init sr =
     (let (s, r) = destroy sr;
          (t, r') = setInterval (pollInterval s) r
      in (s\<lparr>pollIntervalId := Some t\<rparr>, r'))"

subsection \<open>Event names\<close>

text \<open>
  \<^verbatim>\<open>Number(duration)\<close> on a string of decimal digits, and the decimal numeral that a
  template literal prints for a number (JavaScript prints a whole number below \<open>10^21\<close>
  in this way, without leading zeros).
\<close>

definition isDigit :: "char \<Rightarrow> bool" where
  "isDigit c = (c \<in> set ''0123456789'')"

definition digitValue :: "char \<Rightarrow> nat" where
  "digitValue c = of_char c - 48"

definition Number :: "string \<Rightarrow> nat" where
  "Number ds = foldl (\<lambda>acc c. 10 * acc + digitValue c) 0 ds"

definition digitChar :: "nat \<Rightarrow> char" where
  "digitChar n = char_of (48 + n)"

fun String_of :: "nat \<Rightarrow> string" where
  "String_of n = (if n < 10 then [digitChar n] else String_of (n div 10) @ [digitChar (n mod 10)])"

declare String_of.simps [simp del]

text \<open>
  \<^verbatim>\<open>eventName.match(/^(away|online)(:([0-9]+))?$/)\<close>. The result is \<open>None\<close> when the name
  does not match, and otherwise the groups the program reads: group 0 (the whole match),
  group 1 (the status) and group 3 (the digits, \<open>None\<close> when the optional part did not
  take part in the match).
\<close>

definition stripPrefix :: "string \<Rightarrow> string \<Rightarrow> string option" where
  "stripPrefix p s = (if take (length p) s = p then Some (drop (length p) s) else None)"

text \<open>The rest of the pattern, \<^verbatim>\<open>(:([0-9]+))?$\<close>, on what follows the status.\<close>

definition matchDurationPart :: "string \<Rightarrow> string option option" where
  "matchDurationPart rest =
     (case rest of
        [] \<Rightarrow> Some None
      | c # ds \<Rightarrow> if c = CHR '':'' \<and> ds \<noteq> [] \<and> list_all isDigit ds then Some (Some ds) else None)"

definition matchAlternative :: "string \<Rightarrow> string \<Rightarrow> (string \<times> string \<times> string option) option" where
  "matchAlternative st eventName =
     (case stripPrefix st eventName of
        None \<Rightarrow> None
      | Some rest \<Rightarrow>
          (case matchDurationPart rest of
             None \<Rightarrow> None
           | Some g3 \<Rightarrow> Some (eventName, st, g3)))"

definition matchEventName :: "string \<Rightarrow> (string \<times> string \<times> string option) option" where
  "matchEventName eventName =
     (case matchAlternative STATUS_AWAY eventName of
        Some m \<Rightarrow> Some m
      | None \<Rightarrow> matchAlternative STATUS_ONLINE eventName)"

record eventNameInfo =
  isTimedEvent :: bool
  infoStatus :: "string option"
  infoDuration :: "nat option"

text \<open>
  \<^verbatim>\<open>
  parseEventName(eventName) {
    const eventNameInfo = { isTimedEvent: false, status: undefined, duration: undefined };
    const eventNameParts = eventName.match(eventNameExpression);
    if (!eventNameParts) return eventNameInfo;
    let status = eventNameParts[0];
    const duration = eventNameParts[3];
    eventNameInfo.status = status;
    if (duration) {
      status = eventNameParts[1];
      eventNameInfo.isTimedEvent = true;
      eventNameInfo.status = status;
      eventNameInfo.duration = Number(duration);
    }
    return eventNameInfo;
  }
  \<close>
  A string is truthy when it is not empty.
\<close>

definition parseEventName :: "string \<Rightarrow> eventNameInfo" where
  "parseEventName eventName =
     (case matchEventName eventName of
        None \<Rightarrow> \<lparr>isTimedEvent = False, infoStatus = None, infoDuration = None\<rparr>
      | Some (g0, g1, g3) \<Rightarrow>
          (case g3 of
             None \<Rightarrow> \<lparr>isTimedEvent = False, infoStatus = Some g0, infoDuration = None\<rparr>
           | Some ds \<Rightarrow>
               if ds \<noteq> [] then
                 \<lparr>isTimedEvent = True, infoStatus = Some g1, infoDuration = Some (Number ds)\<rparr>
               else \<lparr>isTimedEvent = False, infoStatus = Some g0, infoDuration = None\<rparr>))"

subsection \<open>on and off\<close>

text \<open>
  \<^verbatim>\<open>
  on(eventName, listener) {
    const eventNameInfo = this.parseEventName(eventName);
    if (eventNameInfo.isTimedEvent) {
      this.timedEvents.push({ status: eventNameInfo.status,
                              duration: eventNameInfo.duration, listener });
    }
    super.on(eventName, listener);
  }
  \<close>
  When \<open>isTimedEvent\<close> is set, the status and the duration of the info are both defined;
  the pushed entry takes them from there.
\<close>

definition timedKey :: "eventNameInfo \<Rightarrow> (string \<times> nat) option" where
  "timedKey info =
     (if isTimedEvent info then
        (case (infoStatus info, infoDuration info) of
           (Some st, Some d) \<Rightarrow> Some (st, d)
         | _ \<Rightarrow> None)
      else None)"

definition on :: "string \<Rightarrow> listener \<Rightarrow> NodeAFK \<Rightarrow> NodeAFK" where
  "on eventName l s =
     (let eventNameInfo = parseEventName eventName;
          s' = (case timedKey eventNameInfo of
                  Some (st, d) \<Rightarrow>
                    s\<lparr>timedEvents := timedEvents s @ [\<lparr>status = st, duration = d, listener = l\<rparr>]\<rparr>
                | None \<Rightarrow> s)
      in super_on eventName l s')"

text \<open>
  \<^verbatim>\<open>
  off(eventName, listener) {
    const eventNameInfo = this.parseEventName(eventName);
    if (eventNameInfo.isTimedEvent) {
      this.timedEvents = this.timedEvents.filter(
        timedEvent => timedEvent.status === eventNameInfo.status
          && timedEvent.duration === eventNameInfo.duration
          && timedEvent.listener === listener,
      );
    }
    super.off(eventName, listener);
  }
  \<close>
  \<^verbatim>\<open>Array.prototype.filter\<close> keeps the elements for which the callback returns true.
\<close>

definition off :: "string \<Rightarrow> listener \<Rightarrow> NodeAFK \<Rightarrow> NodeAFK" where
  "off eventName l s =
     (let eventNameInfo = parseEventName eventName;
          s' = (case timedKey eventNameInfo of
                  Some (st, d) \<Rightarrow>
                    s\<lparr>timedEvents :=
                        filter (\<lambda>timedEvent. status timedEvent = st \<and> duration timedEvent = d
                                  \<and> listener timedEvent = l)
                          (timedEvents s)\<rparr>
                | None \<Rightarrow> s)
      in super_off eventName l s')"

subsection \<open>pollStatus\<close>

text \<open>
  The two guards of the status transitions, as \<^verbatim>\<open>pollStatus\<close> writes them.
\<close>

definition onlineToAwayGuard :: "int \<Rightarrow> NodeAFK \<Rightarrow> bool" where
  "onlineToAwayGuard idleTime s =
     (currentStatus s = Some STATUS_ONLINE \<and> idleTime \<ge> inactivityDuration s)"

definition awayToOnlineGuard :: "int \<Rightarrow> NodeAFK \<Rightarrow> bool" where
  "awayToOnlineGuard idleTime s =
     (currentStatus s = Some STATUS_AWAY \<and> idleTime < inactivityDuration s)"

text \<open>
  The first \<^verbatim>\<open>if\<close> of \<^verbatim>\<open>pollStatus\<close>: two emissions, then \<^verbatim>\<open>setStatus(STATUS_AWAY)\<close>.
  The result carries the emissions made.
\<close>

definition onlineToAway ::
  "clock \<Rightarrow> int \<Rightarrow> NodeAFK \<times> runtime \<Rightarrow> outcome \<times> (NodeAFK \<times> runtime) \<times> emission list" where
  "onlineToAway clk idleTime sr =
     (let (s, r) = sr in
      if onlineToAwayGuard idleTime s then
        let e1 = emit ''status-change'' (Some (StatusChange STATUS_ONLINE STATUS_AWAY)) s;
            e2 = emit ''status:away'' None s;
            (out, s', r') = setStatus clk STATUS_AWAY (s, r)
        in (out, (s', r'), [e1, e2])
      else (Returned, (s, r), []))"

text \<open>The second \<^verbatim>\<open>if\<close>: two emissions, then \<^verbatim>\<open>setStatus(STATUS_ONLINE)\<close>.\<close>

definition awayToOnline ::
  "clock \<Rightarrow> int \<Rightarrow> NodeAFK \<times> runtime \<Rightarrow> outcome \<times> (NodeAFK \<times> runtime) \<times> emission list" where
  "awayToOnline clk idleTime sr =
     (let (s, r) = sr in
      if awayToOnlineGuard idleTime s then
        let e1 = emit ''status-change'' (Some (StatusChange STATUS_AWAY STATUS_ONLINE)) s;
            e2 = emit ''status:online'' None s;
            (out, s', r') = setStatus clk STATUS_ONLINE (s, r)
        in (out, (s', r'), [e1, e2])
      else (Returned, (s, r), []))"

text \<open>
  The callback of \<^verbatim>\<open>this.timedEvents.forEach\<close>, for one entry:
  \<^verbatim>\<open>
  ({ status, duration }) => {
    let willEmitTimedEvent = false;
    if (this.currentStatus === STATUS_AWAY && this.currentStatus === status
        && (idleTime - this.inactivityDuration) >= duration) willEmitTimedEvent = true;
    if (this.currentStatus === STATUS_ONLINE && this.currentStatus === status
        && Date.now() - this.userLastCameOnlineAt >= duration) willEmitTimedEvent = true;
    if (willEmitTimedEvent) this.emit(`${status}:${duration}`);
  }
  \<close>
  \<^verbatim>\<open>&&\<close> evaluates its right operand only when the left one holds, so \<^verbatim>\<open>Date.now()\<close> is
  called only for an online entry while the status is online. An undefined
  \<^verbatim>\<open>userLastCameOnlineAt\<close> makes the difference \<^verbatim>\<open>NaN\<close> and the comparison false.
\<close>

definition timedEventName :: "string \<Rightarrow> nat \<Rightarrow> string" where
  "timedEventName st d = st @ '':'' @ String_of d"

definition timedEventCallback ::
  "clock \<Rightarrow> int \<Rightarrow> NodeAFK \<Rightarrow> timed_event \<Rightarrow> runtime \<Rightarrow> emission list \<times> runtime" where
  "timedEventCallback clk idleTime s te r =
     (let awayHit =
            (currentStatus s = Some STATUS_AWAY \<and> currentStatus s = Some (status te)
             \<and> idleTime - inactivityDuration s \<ge> int (duration te));
          (onlineHit, r') =
            (if currentStatus s = Some STATUS_ONLINE \<and> currentStatus s = Some (status te) then
               let (now, r') = Date_now clk r in
               (case userLastCameOnlineAt s of
                  None \<Rightarrow> (False, r')
                | Some t \<Rightarrow> (now - t \<ge> int (duration te), r'))
             else (False, r));
          willEmitTimedEvent = (awayHit \<or> onlineHit)
      in (if willEmitTimedEvent then [emit (timedEventName (status te) (duration te)) None s]
          else [],
          r'))"

text \<open>\<^verbatim>\<open>forEach\<close>: the callback on every entry, in order.\<close>

fun forEachTimedEvent ::
  "clock \<Rightarrow> int \<Rightarrow> NodeAFK \<Rightarrow> timed_event list \<Rightarrow> runtime \<Rightarrow> emission list \<times> runtime" where
  "forEachTimedEvent clk idleTime s [] r = ([], r)"
| "forEachTimedEvent clk idleTime s (te # tes) r =
     (let (es, r') = timedEventCallback clk idleTime s te r;
          (es', r'') = forEachTimedEvent clk idleTime s tes r'
      in (es @ es', r''))"

text \<open>
  \<^verbatim>\<open>pollStatus\<close>, with the sampled \<^verbatim>\<open>desktopIdle.getIdleTime()\<close> as \<open>idleTime\<close>: the two
  transitions in order, then the timed events. A \<^verbatim>\<open>throw\<close> of \<^verbatim>\<open>setStatus\<close> would leave
  the method at that point.
\<close>

definition pollStatus ::
  "clock \<Rightarrow> int \<Rightarrow> NodeAFK \<times> runtime \<Rightarrow> outcome \<times> (NodeAFK \<times> runtime) \<times> emission list" where
  "pollStatus clk idleTime sr =
     (case onlineToAway clk idleTime sr of
        (Threw e, sr1, es1) \<Rightarrow> (Threw e, sr1, es1)
      | (Returned, sr1, es1) \<Rightarrow>
          (case awayToOnline clk idleTime sr1 of
             (Threw e, sr2, es2) \<Rightarrow> (Threw e, sr2, es1 @ es2)
           | (Returned, (s2, r2), es2) \<Rightarrow>
               (let (es3, r3) = forEachTimedEvent clk idleTime s2 (timedEvents s2) r2
                in (Returned, (s2, r3), es1 @ es2 @ es3))))"

subsection \<open>A run of poll ticks\<close>

text \<open>
  The interval timer calls \<^verbatim>\<open>pollStatus\<close> once per tick. \<open>pollTicks\<close> runs one tick per
  sampled idle time, each on the instance the previous tick left, and returns the
  emissions of each tick. A tick that threw would not stop the timer.
\<close>

fun pollTicks :: "clock \<Rightarrow> int list \<Rightarrow> NodeAFK \<times> runtime \<Rightarrow> emission list list" where
  "pollTicks clk [] sr = []"
| "pollTicks clk (idleTime # idleTimes) sr =
     (case pollStatus clk idleTime sr of
        (out, sr', es) \<Rightarrow> es # pollTicks clk idleTimes sr')"

subsection \<open>The timed-event pattern of the specification\<close>

text \<open>
  The specification's reading of a timed event name, \<^verbatim>\<open>^(away|online):([0-9]+)$\<close>: a
  status, a colon, and one or more decimal digits. It is stated from the specification's
  words, to be compared with \<open>parseEventName\<close>.
\<close>

definition matchesTimedPattern :: "string \<Rightarrow> bool" where
  "matchesTimedPattern eventName =
     (\<exists>st ds. (st = ''away'' \<or> st = ''online'') \<and> ds \<noteq> [] \<and> list_all isDigit ds
        \<and> eventName = st @ '':'' @ ds)"

subsection \<open>Example instances\<close>

definition exampleClock :: clock where
  "exampleClock n = 1000 + int n"

definition exampleRuntime :: runtime where
  "exampleRuntime = \<lparr>dateNowCalls = 0, intervals = [], nextTimerId = 1\<rparr>"

text \<open>The instance that \<^verbatim>\<open>new NodeAFK(5000)\<close> builds when the clock shows 1000.\<close>

definition exampleInstance :: NodeAFK where
  "exampleInstance =
     \<lparr>inactivityDuration = 5000, pollInterval = 1000, pollIntervalId = None,
      timedEvents = [], userLastCameOnlineAt = Some 1000,
      currentStatus = Some ''online'', events = (\<lambda>_. [])\<rparr>"

text \<open>
  The example instance after \<^verbatim>\<open>on("away:3000", l1)\<close> and \<^verbatim>\<open>on("online:2000", l2)\<close>.
\<close>

definition exampleSubscribed :: NodeAFK where
  "exampleSubscribed = on ''online:2000'' 2 (on ''away:3000'' 1 exampleInstance)"

subsection \<open>State of an instance after setStatus\<close>

lemma setStatus_invalid:
  "st \<noteq> STATUS_AWAY \<Longrightarrow> st \<noteq> STATUS_ONLINE \<Longrightarrow>
   setStatus clk st (s, r) = (Threw (InvalidStatus st), s, r)"
  by (simp add: setStatus_def)

lemma setStatus_away:
  "setStatus clk STATUS_AWAY (s, r) =
     (Returned, s\<lparr>userLastCameOnlineAt := None, currentStatus := Some STATUS_AWAY\<rparr>, r)"
  by (simp add: setStatus_def STATUS_AWAY_def STATUS_ONLINE_def)

lemma setStatus_online:
  "setStatus clk STATUS_ONLINE (s, r) =
     (Returned,
      s\<lparr>userLastCameOnlineAt := Some (clk (dateNowCalls r)),
        currentStatus := Some STATUS_ONLINE\<rparr>,
      r\<lparr>dateNowCalls := Suc (dateNowCalls r)\<rparr>)"
  by (simp add: setStatus_def Date_now_def)

lemma constructor_example:
  "constructor exampleClock 5000 None None exampleRuntime =
     Inr (exampleInstance, exampleRuntime\<lparr>dateNowCalls := 1\<rparr>)"
  by (simp add: constructor_def setStatus_def Date_now_def exampleClock_def exampleRuntime_def
      exampleInstance_def STATUS_ONLINE_def STATUS_AWAY_def)

subsection \<open>Parsing event names\<close>

lemma stripPrefix_append: "stripPrefix p (p @ rest) = Some rest"
  by (simp add: stripPrefix_def)

lemma stripPrefix_SomeD: "stripPrefix p s = Some rest \<Longrightarrow> s = p @ rest"
  by (metis append_take_drop_id option.distinct(1) option.inject stripPrefix_def)

lemma matchAlternative_timed:
  "ds \<noteq> [] \<Longrightarrow> list_all isDigit ds \<Longrightarrow>
   matchAlternative st (st @ CHR '':'' # ds) = Some (st @ CHR '':'' # ds, st, Some ds)"
  by (simp add: matchAlternative_def matchDurationPart_def stripPrefix_append)

lemma matchAlternative_SomeD:
  assumes "matchAlternative st eventName = Some (g0, g1, g3)"
  shows "g0 = eventName \<and> g1 = st \<and>
         (case g3 of None \<Rightarrow> eventName = st
          | Some ds \<Rightarrow> ds \<noteq> [] \<and> list_all isDigit ds \<and> eventName = st @ CHR '':'' # ds)"
proof -
  from assms obtain rest where r: "stripPrefix st eventName = Some rest"
    by (auto simp: matchAlternative_def split: option.splits)
  then have e: "eventName = st @ rest" by (rule stripPrefix_SomeD)
  from assms r have "matchDurationPart rest = Some g3" "g0 = eventName" "g1 = st"
    by (auto simp: matchAlternative_def split: option.splits)
  with e show ?thesis
    by (auto simp: matchDurationPart_def split: list.splits if_splits option.splits)
qed

lemma matchAlternative_away_online:
  "matchAlternative STATUS_AWAY (STATUS_ONLINE @ rest) = None"
  by (simp add: matchAlternative_def stripPrefix_def STATUS_AWAY_def STATUS_ONLINE_def)

lemma timedKey_parse_timed:
  assumes "st = STATUS_AWAY \<or> st = STATUS_ONLINE" "ds \<noteq> []" "list_all isDigit ds"
  shows "timedKey (parseEventName (st @ CHR '':'' # ds)) = Some (st, Number ds)"
  using assms matchAlternative_timed[OF assms(2,3), of st]
  by (auto simp: timedKey_def parseEventName_def matchEventName_def matchAlternative_away_online)

lemma timedKey_parse_SomeD:
  assumes "timedKey (parseEventName eventName) = Some (st, d)"
  shows "\<exists>ds. (st = STATUS_AWAY \<or> st = STATUS_ONLINE) \<and> ds \<noteq> [] \<and> list_all isDigit ds
        \<and> eventName = st @ CHR '':'' # ds \<and> d = Number ds"
proof -
  from assms obtain g0 g1 ds where m: "matchEventName eventName = Some (g0, g1, Some ds)"
    and k: "st = g1" "d = Number ds"
    by (auto simp: timedKey_def parseEventName_def split: option.splits if_splits prod.splits)
  from m have "matchAlternative STATUS_AWAY eventName = Some (g0, g1, Some ds)
      \<or> matchAlternative STATUS_ONLINE eventName = Some (g0, g1, Some ds)"
    by (auto simp: matchEventName_def split: option.splits)
  then show ?thesis using k
    by (auto dest!: matchAlternative_SomeD)
qed

lemma timedKey_iff_pattern:
  "timedKey (parseEventName eventName) \<noteq> None \<longleftrightarrow> matchesTimedPattern eventName"
proof
  assume "timedKey (parseEventName eventName) \<noteq> None"
  then obtain st d where "timedKey (parseEventName eventName) = Some (st, d)" by auto
  from timedKey_parse_SomeD[OF this] show "matchesTimedPattern eventName"
    by (auto simp: matchesTimedPattern_def STATUS_AWAY_def STATUS_ONLINE_def)
next
  assume "matchesTimedPattern eventName"
  then obtain st ds where a: "st = STATUS_AWAY \<or> st = STATUS_ONLINE" "ds \<noteq> []"
      "list_all isDigit ds" and e: "eventName = st @ CHR '':'' # ds"
    by (auto simp: matchesTimedPattern_def STATUS_AWAY_def STATUS_ONLINE_def)
  from timedKey_parse_timed[OF a] e show "timedKey (parseEventName eventName) \<noteq> None" by simp
qed

lemma timedKey_isTimedEvent:
  "timedKey (parseEventName eventName) \<noteq> None \<longleftrightarrow> isTimedEvent (parseEventName eventName)"
  by (auto simp: timedKey_def parseEventName_def split: option.splits if_splits prod.splits)

lemmas parse_eval =
  parseEventName_def matchEventName_def matchAlternative_def stripPrefix_def
  matchDurationPart_def timedKey_def STATUS_AWAY_def STATUS_ONLINE_def isDigit_def
  Number_def digitValue_def

subsection \<open>What on and off do to the registry\<close>

lemma on_timedEvents:
  "timedEvents (on eventName l s) =
     (case timedKey (parseEventName eventName) of
        Some (st, d) \<Rightarrow> timedEvents s @ [\<lparr>status = st, duration = d, listener = l\<rparr>]
      | None \<Rightarrow> timedEvents s)"
  by (simp add: on_def super_on_def Let_def split: option.splits prod.splits)

lemma on_events:
  "events (on eventName l s) = (events s)(eventName := events s eventName @ [l])"
  by (simp add: on_def super_on_def Let_def split: option.splits prod.splits)

lemma off_timedEvents:
  "timedEvents (off eventName l s) =
     (case timedKey (parseEventName eventName) of
        Some (st, d) \<Rightarrow>
          filter (\<lambda>te. status te = st \<and> duration te = d \<and> listener te = l) (timedEvents s)
      | None \<Rightarrow> timedEvents s)"
  by (simp add: off_def super_off_def Let_def split: option.splits prod.splits)

subsection \<open>destroy and init, unfolded\<close>

lemma destroy_eq:
  "destroy (s, r) =
     (s\<lparr>timedEvents := [], events := (\<lambda>_. [])\<rparr>,
      (case pollIntervalId s of Some t \<Rightarrow> clearInterval t r | None \<Rightarrow> r))"
  by (simp add: destroy_def removeAllListeners_def)

lemma init_eq:
  "init sr =
     (let (s1, r1) = destroy sr in
      (s1\<lparr>pollIntervalId := Some (nextTimerId r1)\<rparr>,
       r1\<lparr>intervals := intervals r1 @ [(nextTimerId r1, pollInterval s1)],
          nextTimerId := Suc (nextTimerId r1)\<rparr>))"
  by (simp add: init_def setInterval_def split: prod.splits)

lemma clearInterval_stops: "t \<notin> fst ` set (intervals (clearInterval t r))"
  by (auto simp: clearInterval_def)

lemma clearInterval_nextTimerId: "nextTimerId (clearInterval t r) = nextTimerId r"
  by (simp add: clearInterval_def)

subsection \<open>The transitions of a tick\<close>

lemma onlineToAway_fires:
  "onlineToAwayGuard idleTime s \<Longrightarrow>
   onlineToAway clk idleTime (s, r) =
     (Returned, (s\<lparr>userLastCameOnlineAt := None, currentStatus := Some STATUS_AWAY\<rparr>, r),
      [emit ''status-change'' (Some (StatusChange STATUS_ONLINE STATUS_AWAY)) s,
       emit ''status:away'' None s])"
  by (simp add: onlineToAway_def setStatus_away)

lemma onlineToAway_skips:
  "\<not> onlineToAwayGuard idleTime s \<Longrightarrow> onlineToAway clk idleTime (s, r) = (Returned, (s, r), [])"
  by (simp add: onlineToAway_def)

lemma awayToOnline_fires:
  "awayToOnlineGuard idleTime s \<Longrightarrow>
   awayToOnline clk idleTime (s, r) =
     (Returned,
      (s\<lparr>userLastCameOnlineAt := Some (clk (dateNowCalls r)),
         currentStatus := Some STATUS_ONLINE\<rparr>,
       r\<lparr>dateNowCalls := Suc (dateNowCalls r)\<rparr>),
      [emit ''status-change'' (Some (StatusChange STATUS_AWAY STATUS_ONLINE)) s,
       emit ''status:online'' None s])"
  by (simp add: awayToOnline_def setStatus_online)

lemma awayToOnline_skips:
  "\<not> awayToOnlineGuard idleTime s \<Longrightarrow> awayToOnline clk idleTime (s, r) = (Returned, (s, r), [])"
  by (simp add: awayToOnline_def)

lemma STATUS_distinct: "STATUS_ONLINE \<noteq> STATUS_AWAY" "STATUS_AWAY \<noteq> STATUS_ONLINE"
  by (simp_all add: STATUS_AWAY_def STATUS_ONLINE_def)

lemma guards_exclusive:
  "\<not> (onlineToAwayGuard idleTime s \<and>
       awayToOnlineGuard idleTime (fst (fst (snd (onlineToAway clk idleTime (s, r))))))"
  by (auto simp: onlineToAway_fires) (auto simp: onlineToAwayGuard_def awayToOnlineGuard_def)

text \<open>\<^verbatim>\<open>pollStatus\<close> in its three cases: online to away, away to online, no transition.\<close>

lemma pollStatus_online_to_away:
  assumes "onlineToAwayGuard idleTime s"
  shows "pollStatus clk idleTime (s, r) =
     (let s' = s\<lparr>userLastCameOnlineAt := None, currentStatus := Some STATUS_AWAY\<rparr>;
          (es, r') = forEachTimedEvent clk idleTime s' (timedEvents s) r
      in (Returned, (s', r'),
          [emit ''status-change'' (Some (StatusChange STATUS_ONLINE STATUS_AWAY)) s,
           emit ''status:away'' None s] @ es))"
proof -
  have "\<not> awayToOnlineGuard idleTime
          (s\<lparr>userLastCameOnlineAt := None, currentStatus := Some STATUS_AWAY\<rparr>)"
    using assms by (simp add: onlineToAwayGuard_def awayToOnlineGuard_def)
  then show ?thesis using assms
    by (simp add: pollStatus_def onlineToAway_fires awayToOnline_skips split: prod.splits)
qed

lemma pollStatus_away_to_online:
  assumes "awayToOnlineGuard idleTime s"
  shows "pollStatus clk idleTime (s, r) =
     (let s' = s\<lparr>userLastCameOnlineAt := Some (clk (dateNowCalls r)),
                  currentStatus := Some STATUS_ONLINE\<rparr>;
          (es, r') = forEachTimedEvent clk idleTime s' (timedEvents s)
                       (r\<lparr>dateNowCalls := Suc (dateNowCalls r)\<rparr>)
      in (Returned, (s', r'),
          [emit ''status-change'' (Some (StatusChange STATUS_AWAY STATUS_ONLINE)) s,
           emit ''status:online'' None s] @ es))"
proof -
  have "\<not> onlineToAwayGuard idleTime s"
    using assms STATUS_distinct by (auto simp: onlineToAwayGuard_def awayToOnlineGuard_def)
  then show ?thesis using assms
    by (simp add: pollStatus_def onlineToAway_skips awayToOnline_fires split: prod.splits)
qed

lemma pollStatus_no_transition:
  assumes "\<not> onlineToAwayGuard idleTime s" "\<not> awayToOnlineGuard idleTime s"
  shows "pollStatus clk idleTime (s, r) =
     (let (es, r') = forEachTimedEvent clk idleTime s (timedEvents s) r
      in (Returned, (s, r'), es))"
  using assms
  by (simp add: pollStatus_def onlineToAway_skips awayToOnline_skips split: prod.splits)

subsection \<open>Numbers and their numerals\<close>

lemma digitValue_digitChar: "n < 10 \<Longrightarrow> digitValue (digitChar n) = n"
  by (simp add: digitValue_def digitChar_def)

lemma Number_snoc: "Number (ds @ [c]) = 10 * Number ds + digitValue c"
  by (simp add: Number_def)

lemma Number_String_of: "Number (String_of n) = n"
proof (induction n rule: String_of.induct)
  case (1 n)
  show ?case
  proof (cases "n < 10")
    case True
    then show ?thesis
      by (subst String_of.simps) (simp add: Number_def digitValue_digitChar)
  next
    case False
    then have "Number (String_of (n div 10)) = n div 10" using 1 by simp
    with False show ?thesis
      by (subst String_of.simps) (simp add: Number_snoc digitValue_digitChar)
  qed
qed

lemma String_of_inject: "String_of m = String_of n \<longleftrightarrow> m = n"
  by (metis Number_String_of)

lemma timedEventName_inject:
  "timedEventName st d = timedEventName st d' \<longleftrightarrow> d = d'"
  by (simp add: timedEventName_def String_of_inject)

lemma timedEventName_not_status:
  assumes "st = STATUS_AWAY \<or> st = STATUS_ONLINE"
  shows "timedEventName st d \<noteq> ''status-change''"
    "timedEventName st d \<noteq> ''status:away''"
    "timedEventName st d \<noteq> ''status:online''"
  using assms by (auto simp: timedEventName_def STATUS_AWAY_def STATUS_ONLINE_def)

lemma timedEventName_away_online:
  "timedEventName STATUS_AWAY d \<noteq> timedEventName STATUS_ONLINE d'"
  by (simp add: timedEventName_def STATUS_AWAY_def STATUS_ONLINE_def)

subsection \<open>The timed events of a tick\<close>

lemma timedEventCallback_away:
  assumes "currentStatus s = Some STATUS_AWAY"
  shows "timedEventCallback clk idleTime s te r =
     (if status te = STATUS_AWAY \<and> int (duration te) \<le> idleTime - inactivityDuration s
      then [emit (timedEventName STATUS_AWAY (duration te)) None s] else [], r)"
  using assms STATUS_distinct by (auto simp: timedEventCallback_def)

lemma timedEventCallback_online:
  assumes "currentStatus s = Some STATUS_ONLINE" "userLastCameOnlineAt s = Some t0"
  shows "timedEventCallback clk idleTime s te r =
     (if status te = STATUS_ONLINE then
        (if int (duration te) \<le> clk (dateNowCalls r) - t0
         then [emit (timedEventName STATUS_ONLINE (duration te)) None s] else [],
         r\<lparr>dateNowCalls := Suc (dateNowCalls r)\<rparr>)
      else ([], r))"
  using assms STATUS_distinct by (auto simp: timedEventCallback_def Date_now_def)

lemma forEach_away:
  assumes "currentStatus s = Some STATUS_AWAY"
  shows "forEachTimedEvent clk idleTime s tes r =
     (map (\<lambda>te. emit (timedEventName STATUS_AWAY (duration te)) None s)
        (filter (\<lambda>te. status te = STATUS_AWAY
                   \<and> int (duration te) \<le> idleTime - inactivityDuration s) tes), r)"
  by (induction tes) (simp_all add: timedEventCallback_away[OF assms])

lemma forEach_append:
  "forEachTimedEvent clk idleTime s (xs @ ys) r =
     (let (es, r') = forEachTimedEvent clk idleTime s xs r;
          (es', r'') = forEachTimedEvent clk idleTime s ys r'
      in (es @ es', r''))"
  by (induction xs arbitrary: r) (auto split: prod.splits)

lemma forEach_nth:
  assumes "i < length tes"
  shows "forEachTimedEvent clk idleTime s tes r =
     (let (pre, r1) = forEachTimedEvent clk idleTime s (take i tes) r;
          (mid, r2) = timedEventCallback clk idleTime s (tes ! i) r1;
          (post, r3) = forEachTimedEvent clk idleTime s (drop (Suc i) tes) r2
      in (pre @ mid @ post, r3))"
proof -
  have "tes = take i tes @ (tes ! i) # drop (Suc i) tes"
    using assms by (simp add: id_take_nth_drop)
  then have "forEachTimedEvent clk idleTime s tes r =
      forEachTimedEvent clk idleTime s (take i tes @ (tes ! i) # drop (Suc i) tes) r"
    by simp
  also have "\<dots> = (let (pre, r1) = forEachTimedEvent clk idleTime s (take i tes) r;
          (mid, r2) = timedEventCallback clk idleTime s (tes ! i) r1;
          (post, r3) = forEachTimedEvent clk idleTime s (drop (Suc i) tes) r2
      in (pre @ mid @ post, r3))"
    by (simp add: forEach_append split: prod.splits)
  finally show ?thesis .
qed

lemma timedEventCallback_online_calls:
  assumes "currentStatus s = Some STATUS_ONLINE"
  shows "dateNowCalls (snd (timedEventCallback clk idleTime s te r)) =
     dateNowCalls r + (if status te = STATUS_ONLINE then 1 else 0)"
  using assms STATUS_distinct
  by (auto simp: timedEventCallback_def Date_now_def split: option.splits)

lemma forEach_online_calls:
  assumes "currentStatus s = Some STATUS_ONLINE"
  shows "dateNowCalls (snd (forEachTimedEvent clk idleTime s tes r)) =
     dateNowCalls r + length (filter (\<lambda>te. status te = STATUS_ONLINE) tes)"
proof (induction tes arbitrary: r)
  case Nil
  then show ?case by simp
next
  case (Cons te tes)
  have "dateNowCalls (snd (forEachTimedEvent clk idleTime s (te # tes) r)) =
      dateNowCalls (snd (forEachTimedEvent clk idleTime s tes
         (snd (timedEventCallback clk idleTime s te r))))"
    by (simp add: case_prod_beta)
  also have "\<dots> = dateNowCalls (snd (timedEventCallback clk idleTime s te r))
      + length (filter (\<lambda>te. status te = STATUS_ONLINE) tes)"
    by (rule Cons.IH)
  finally show ?case
    by (simp add: timedEventCallback_online_calls[OF assms])
qed

lemma forEach_emissions:
  assumes "e \<in> set (fst (forEachTimedEvent clk idleTime s tes r))"
  shows "\<exists>te\<in>set tes. e = emit (timedEventName (status te) (duration te)) None s
           \<and> currentStatus s = Some (status te)
           \<and> (status te = STATUS_AWAY \<or> status te = STATUS_ONLINE)"
  using assms
proof (induction tes arbitrary: r)
  case Nil
  then show ?case by simp
next
  case (Cons te tes)
  obtain es r' where c: "timedEventCallback clk idleTime s te r = (es, r')" by (cases "timedEventCallback clk idleTime s te r")
  from Cons.prems c have "e \<in> set es \<or> e \<in> set (fst (forEachTimedEvent clk idleTime s tes r'))"
    by (auto split: prod.splits)
  then show ?case
  proof
    assume "e \<in> set es"
    with c show ?thesis
      by (auto simp: timedEventCallback_def Let_def split: if_splits prod.splits option.splits)
  next
    assume "e \<in> set (fst (forEachTimedEvent clk idleTime s tes r'))"
    from Cons.IH[OF this] show ?thesis by auto
  qed
qed

subsection \<open>A tick as a whole\<close>

lemma timedEventCallback_runtime:
  "\<exists>n\<ge>dateNowCalls r. snd (timedEventCallback clk idleTime s te r) = r\<lparr>dateNowCalls := n\<rparr>"
proof (cases "currentStatus s = Some STATUS_ONLINE \<and> currentStatus s = Some (status te)")
  case True
  then have "snd (timedEventCallback clk idleTime s te r) = r\<lparr>dateNowCalls := Suc (dateNowCalls r)\<rparr>"
    by (auto simp: timedEventCallback_def Date_now_def split: option.splits)
  then show ?thesis by (intro exI[of _ "Suc (dateNowCalls r)"]) simp
next
  case False
  then have "snd (timedEventCallback clk idleTime s te r) = r\<lparr>dateNowCalls := dateNowCalls r\<rparr>"
    by (auto simp: timedEventCallback_def)
  then show ?thesis by (intro exI[of _ "dateNowCalls r"]) simp
qed

lemma forEach_runtime:
  "\<exists>n\<ge>dateNowCalls r. snd (forEachTimedEvent clk idleTime s tes r) = r\<lparr>dateNowCalls := n\<rparr>"
proof (induction tes arbitrary: r)
  case Nil
  show ?case by (intro exI[of _ "dateNowCalls r"]) simp
next
  case (Cons te tes)
  obtain n where n: "n \<ge> dateNowCalls r"
      "snd (timedEventCallback clk idleTime s te r) = r\<lparr>dateNowCalls := n\<rparr>"
    using timedEventCallback_runtime by blast
  obtain m where m: "m \<ge> dateNowCalls (r\<lparr>dateNowCalls := n\<rparr>)"
      "snd (forEachTimedEvent clk idleTime s tes (r\<lparr>dateNowCalls := n\<rparr>))
         = r\<lparr>dateNowCalls := n\<rparr>\<lparr>dateNowCalls := m\<rparr>"
    using Cons.IH by blast
  have "snd (forEachTimedEvent clk idleTime s (te # tes) r) = r\<lparr>dateNowCalls := m\<rparr>"
    using n m by (simp add: case_prod_beta)
  moreover have "m \<ge> dateNowCalls r" using n m by simp
  ultimately show ?case by blast
qed

text \<open>The three cases of a tick, as a case rule.\<close>

lemma pollStatus_cases:
  obtains
    (to_away) "onlineToAwayGuard idleTime s"
      "pollStatus clk idleTime (s, r) =
         (Returned,
          (s\<lparr>userLastCameOnlineAt := None, currentStatus := Some STATUS_AWAY\<rparr>,
           snd (forEachTimedEvent clk idleTime
                 (s\<lparr>userLastCameOnlineAt := None, currentStatus := Some STATUS_AWAY\<rparr>)
                 (timedEvents s) r)),
          [emit ''status-change'' (Some (StatusChange STATUS_ONLINE STATUS_AWAY)) s,
           emit ''status:away'' None s]
          @ fst (forEachTimedEvent clk idleTime
                 (s\<lparr>userLastCameOnlineAt := None, currentStatus := Some STATUS_AWAY\<rparr>)
                 (timedEvents s) r))"
  | (to_online) "awayToOnlineGuard idleTime s"
      "pollStatus clk idleTime (s, r) =
         (Returned,
          (s\<lparr>userLastCameOnlineAt := Some (clk (dateNowCalls r)),
             currentStatus := Some STATUS_ONLINE\<rparr>,
           snd (forEachTimedEvent clk idleTime
                 (s\<lparr>userLastCameOnlineAt := Some (clk (dateNowCalls r)),
                    currentStatus := Some STATUS_ONLINE\<rparr>)
                 (timedEvents s) (r\<lparr>dateNowCalls := Suc (dateNowCalls r)\<rparr>))),
          [emit ''status-change'' (Some (StatusChange STATUS_AWAY STATUS_ONLINE)) s,
           emit ''status:online'' None s]
          @ fst (forEachTimedEvent clk idleTime
                 (s\<lparr>userLastCameOnlineAt := Some (clk (dateNowCalls r)),
                    currentStatus := Some STATUS_ONLINE\<rparr>)
                 (timedEvents s) (r\<lparr>dateNowCalls := Suc (dateNowCalls r)\<rparr>)))"
  | (stay) "\<not> onlineToAwayGuard idleTime s" "\<not> awayToOnlineGuard idleTime s"
      "pollStatus clk idleTime (s, r) =
         (Returned, (s, snd (forEachTimedEvent clk idleTime s (timedEvents s) r)),
          fst (forEachTimedEvent clk idleTime s (timedEvents s) r))"
proof (cases "onlineToAwayGuard idleTime s")
  case True
  from pollStatus_online_to_away[OF True, of clk r] True to_away show ?thesis
    by (simp add: case_prod_beta Let_def)
next
  case False
  show ?thesis
  proof (cases "awayToOnlineGuard idleTime s")
    case True
    from pollStatus_away_to_online[OF True, of clk r] True to_online show ?thesis
      by (simp add: case_prod_beta Let_def)
  next
    case F2: False
    from pollStatus_no_transition[OF False F2, of clk r] False F2 stay show ?thesis
      by (simp add: case_prod_beta Let_def)
  qed
qed

lemma pollStatus_preserves:
  assumes "pollStatus clk idleTime (s, r) = (out, (s', r'), es)"
  shows "out = Returned \<and> timedEvents s' = timedEvents s \<and> events s' = events s
       \<and> inactivityDuration s' = inactivityDuration s \<and> dateNowCalls r \<le> dateNowCalls r'"
proof (cases rule: pollStatus_cases[of idleTime s clk r])
  case to_away
  with assms forEach_runtime[of r clk idleTime
      "s\<lparr>userLastCameOnlineAt := None, currentStatus := Some STATUS_AWAY\<rparr>" "timedEvents s"]
  show ?thesis by auto
next
  case to_online
  with assms forEach_runtime[of "r\<lparr>dateNowCalls := Suc (dateNowCalls r)\<rparr>" clk idleTime
      "s\<lparr>userLastCameOnlineAt := Some (clk (dateNowCalls r)),
                    currentStatus := Some STATUS_ONLINE\<rparr>" "timedEvents s"]
  show ?thesis by auto
next
  case stay
  with assms forEach_runtime[of r clk idleTime s "timedEvents s"]
  show ?thesis by auto
qed

lemma forEach_names:
  assumes "e \<in> set (fst (forEachTimedEvent clk idleTime s tes r))"
  shows "ev_name e \<noteq> ''status-change'' \<and> ev_name e \<noteq> ''status:away''
       \<and> ev_name e \<noteq> ''status:online'' \<and> ev_seen_status e = currentStatus s
       \<and> ev_payload e = None"
  using forEach_emissions[OF assms] timedEventName_not_status
  by (auto simp: emit_def)

lemma count_status_change_forEach:
  "filter (\<lambda>e. ev_name e = ''status-change'') (fst (forEachTimedEvent clk idleTime s tes r)) = []"
  using forEach_names[of _ clk idleTime s tes r] by (auto simp: filter_empty_conv)

subsection \<open>Evaluating examples\<close>

lemma String_of_examples:
  "String_of 0 = ''0''" "String_of 7 = ''7''" "String_of 2000 = ''2000''" "String_of 3000 = ''3000''"
  by code_simp+

lemma timedEventName_examples:
  "timedEventName ''away'' 0 = ''away:0''" "timedEventName ''away'' 7 = ''away:7''"
  "timedEventName ''away'' 3000 = ''away:3000''" "timedEventName ''online'' 2000 = ''online:2000''"
  by (simp_all add: timedEventName_def String_of_examples)

lemmas tick_eval =
  pollStatus_def onlineToAway_def awayToOnline_def onlineToAwayGuard_def awayToOnlineGuard_def
  setStatus_def Date_now_def timedEventCallback_def emit_def
  STATUS_AWAY_def STATUS_ONLINE_def exampleInstance_def exampleRuntime_def exampleClock_def
  timedEventName_examples on_def super_on_def parse_eval

subsection \<open>Timed events while away\<close>

lemma forEach_away_name_iff:
  assumes "currentStatus s = Some STATUS_AWAY" "te \<in> set tes" "status te = STATUS_AWAY"
  shows "(\<exists>e\<in>set (fst (forEachTimedEvent clk idleTime s tes r)).
            ev_name e = timedEventName STATUS_AWAY (duration te))
         \<longleftrightarrow> int (duration te) \<le> idleTime - inactivityDuration s"
proof
  assume "\<exists>e\<in>set (fst (forEachTimedEvent clk idleTime s tes r)).
            ev_name e = timedEventName STATUS_AWAY (duration te)"
  then obtain te' where "te' \<in> set tes" "status te' = STATUS_AWAY"
      "int (duration te') \<le> idleTime - inactivityDuration s"
      "timedEventName STATUS_AWAY (duration te') = timedEventName STATUS_AWAY (duration te)"
    by (auto simp: forEach_away[OF assms(1)] emit_def)
  then show "int (duration te) \<le> idleTime - inactivityDuration s"
    by (simp add: timedEventName_inject)
next
  assume "int (duration te) \<le> idleTime - inactivityDuration s"
  with assms(2,3) have
    "emit (timedEventName STATUS_AWAY (duration te)) None s
       \<in> set (fst (forEachTimedEvent clk idleTime s tes r))"
    by (auto simp: forEach_away[OF assms(1)])
  then show "\<exists>e\<in>set (fst (forEachTimedEvent clk idleTime s tes r)).
            ev_name e = timedEventName STATUS_AWAY (duration te)"
    by (auto simp: emit_def intro!: bexI[of _ "emit (timedEventName STATUS_AWAY (duration te)) None s"])
qed

lemma forEach_online_no_away_name:
  assumes "currentStatus s = Some STATUS_ONLINE"
    and "e \<in> set (fst (forEachTimedEvent clk idleTime s tes r))"
  shows "ev_name e \<noteq> timedEventName STATUS_AWAY d"
proof -
  from forEach_emissions[OF assms(2)] obtain te :: timed_event where
    a: "e = emit (timedEventName (status te) (duration te)) None s"
      "currentStatus s = Some (status te)"
    by blast
  with assms(1) have "status te = STATUS_ONLINE" by simp
  with a have "ev_name e = timedEventName STATUS_ONLINE (duration te)"
    by (simp add: emit_def)
  then show ?thesis using timedEventName_away_online[of d "duration te"] by simp
qed

lemma tick_away_name_iff:
  assumes poll: "pollStatus clk idleTime (s, r) = (out, (s', r'), es)"
    and away: "currentStatus s = Some STATUS_AWAY \<or> currentStatus s' = Some STATUS_AWAY"
    and te: "te \<in> set (timedEvents s)" "status te = STATUS_AWAY"
  shows "(\<exists>e\<in>set es. ev_name e = timedEventName STATUS_AWAY (duration te))
         \<longleftrightarrow> int (duration te) \<le> idleTime - inactivityDuration s"
proof (cases rule: pollStatus_cases[of idleTime s clk r])
  case to_away
  let ?s' = "s\<lparr>userLastCameOnlineAt := None, currentStatus := Some STATUS_AWAY\<rparr>"
  have "(\<exists>e\<in>set (fst (forEachTimedEvent clk idleTime ?s' (timedEvents s) r)).
            ev_name e = timedEventName STATUS_AWAY (duration te))
         \<longleftrightarrow> int (duration te) \<le> idleTime - inactivityDuration ?s'"
    by (rule forEach_away_name_iff) (use te in simp_all)
  with to_away(2) poll timedEventName_not_status[of STATUS_AWAY "duration te"]
  show ?thesis by (auto simp: emit_def)
next
  case to_online
  let ?s' = "s\<lparr>userLastCameOnlineAt := Some (clk (dateNowCalls r)),
                currentStatus := Some STATUS_ONLINE\<rparr>"
  have no: "\<And>e. e \<in> set (fst (forEachTimedEvent clk idleTime ?s' (timedEvents s)
                 (r\<lparr>dateNowCalls := Suc (dateNowCalls r)\<rparr>)))
          \<Longrightarrow> ev_name e \<noteq> timedEventName STATUS_AWAY (duration te)"
    by (rule forEach_online_no_away_name[of ?s']) simp_all
  from to_online(1) have "\<not> int (duration te) \<le> idleTime - inactivityDuration s"
    by (simp add: awayToOnlineGuard_def)
  with to_online(2) poll no timedEventName_not_status[of STATUS_AWAY "duration te"]
  show ?thesis by (auto simp: emit_def)
next
  case stay
  with poll have s': "s' = s" and es: "es = fst (forEachTimedEvent clk idleTime s (timedEvents s) r)"
    by auto
  with away have "currentStatus s = Some STATUS_AWAY" by auto
  from forEach_away_name_iff[OF this te, of clk idleTime r] es show ?thesis by simp
qed

lemma tick_status_after:
  assumes poll: "pollStatus clk idleTime (s, r) = (out, (s', r'), es)"
    and st: "currentStatus s = Some STATUS_AWAY \<or> currentStatus s = Some STATUS_ONLINE"
  shows "currentStatus s' = Some (if inactivityDuration s \<le> idleTime then STATUS_AWAY else STATUS_ONLINE)"
proof (cases rule: pollStatus_cases[of idleTime s clk r])
  case to_away
  with poll show ?thesis by (auto simp: onlineToAwayGuard_def)
next
  case to_online
  with poll show ?thesis by (auto simp: awayToOnlineGuard_def)
next
  case stay
  with poll st STATUS_distinct show ?thesis
    by (auto simp: awayToOnlineGuard_def onlineToAwayGuard_def)
qed

lemma pollTicks_length: "length (pollTicks clk idleTimes sr) = length idleTimes"
  by (induction idleTimes arbitrary: sr) (auto split: prod.splits)

lemma pollTicks_away_fires:
  assumes "currentStatus s = Some STATUS_AWAY \<or> currentStatus s = Some STATUS_ONLINE"
    and "te \<in> set (timedEvents s)" "status te = STATUS_AWAY"
    and "\<forall>i\<in>set idleTimes. int (duration te) \<le> i - inactivityDuration s"
    and "es \<in> set (pollTicks clk idleTimes (s, r))"
  shows "\<exists>e\<in>set es. ev_name e = timedEventName STATUS_AWAY (duration te)"
  using assms
proof (induction idleTimes arbitrary: s r)
  case Nil
  then show ?case by simp
next
  case (Cons i idleTimes)
  obtain out s' r' es' where poll: "pollStatus clk i (s, r) = (out, (s', r'), es')"
    by (metis prod.exhaust)
  from Cons.prems(4) have c: "int (duration te) \<le> i - inactivityDuration s" by simp
  then have "inactivityDuration s \<le> i" by simp
  with tick_status_after[OF poll Cons.prems(1)] have a: "currentStatus s' = Some STATUS_AWAY"
    by simp
  from pollStatus_preserves[OF poll] have p: "timedEvents s' = timedEvents s"
    "inactivityDuration s' = inactivityDuration s" by simp_all
  from tick_away_name_iff[OF poll _ Cons.prems(2,3)] a c
  have f: "\<exists>e\<in>set es'. ev_name e = timedEventName STATUS_AWAY (duration te)" by simp
  from Cons.prems(5) poll have "es = es' \<or> es \<in> set (pollTicks clk idleTimes (s', r'))"
    by auto
  then show ?case
  proof
    assume "es = es'" with f show ?thesis by simp
  next
    assume "es \<in> set (pollTicks clk idleTimes (s', r'))"
    with Cons.IH[of s' r'] a p Cons.prems(2,3,4) show ?thesis by simp
  qed
qed

subsection \<open>Timed events while online\<close>

lemma forEach_nth_online:
  assumes on: "currentStatus s = Some STATUS_ONLINE" and last: "userLastCameOnlineAt s = Some t0"
    and i: "i < length tes" and te: "status (tes ! i) = STATUS_ONLINE"
  shows "fst (forEachTimedEvent clk idleTime s tes r) =
           fst (forEachTimedEvent clk idleTime s (take i tes) r)
           @ (if int (duration (tes ! i))
                  \<le> clk (dateNowCalls (snd (forEachTimedEvent clk idleTime s (take i tes) r))) - t0
              then [emit (timedEventName STATUS_ONLINE (duration (tes ! i))) None s] else [])
           @ fst (forEachTimedEvent clk idleTime s (drop (Suc i) tes)
                   ((snd (forEachTimedEvent clk idleTime s (take i tes) r))
                      \<lparr>dateNowCalls :=
                         Suc (dateNowCalls (snd (forEachTimedEvent clk idleTime s (take i tes) r)))\<rparr>))"
  using te
  by (simp add: forEach_nth[OF i, of clk idleTime s r] case_prod_beta
      timedEventCallback_online[OF on last])

lemma tick_online_shape:
  assumes poll: "pollStatus clk idleTime (s, r) = (out, (s', r'), es)"
    and on: "currentStatus s' = Some STATUS_ONLINE"
  shows "es = (if awayToOnlineGuard idleTime s
               then [emit ''status-change'' (Some (StatusChange STATUS_AWAY STATUS_ONLINE)) s,
                     emit ''status:online'' None s]
               else [])
              @ fst (forEachTimedEvent clk idleTime s' (timedEvents s)
                      (if awayToOnlineGuard idleTime s
                       then r\<lparr>dateNowCalls := Suc (dateNowCalls r)\<rparr> else r))"
    and "r' = snd (forEachTimedEvent clk idleTime s' (timedEvents s)
                      (if awayToOnlineGuard idleTime s
                       then r\<lparr>dateNowCalls := Suc (dateNowCalls r)\<rparr> else r))"
    and "userLastCameOnlineAt s' =
           (if awayToOnlineGuard idleTime s then Some (clk (dateNowCalls r))
            else userLastCameOnlineAt s)"
    and "events s' = events s"
proof -
  have "es = (if awayToOnlineGuard idleTime s
               then [emit ''status-change'' (Some (StatusChange STATUS_AWAY STATUS_ONLINE)) s,
                     emit ''status:online'' None s]
               else [])
              @ fst (forEachTimedEvent clk idleTime s' (timedEvents s)
                      (if awayToOnlineGuard idleTime s
                       then r\<lparr>dateNowCalls := Suc (dateNowCalls r)\<rparr> else r))
      \<and> r' = snd (forEachTimedEvent clk idleTime s' (timedEvents s)
                      (if awayToOnlineGuard idleTime s
                       then r\<lparr>dateNowCalls := Suc (dateNowCalls r)\<rparr> else r))
      \<and> userLastCameOnlineAt s' =
           (if awayToOnlineGuard idleTime s then Some (clk (dateNowCalls r))
            else userLastCameOnlineAt s)
      \<and> events s' = events s"
  proof (cases rule: pollStatus_cases[of idleTime s clk r])
    case to_away
    with poll on STATUS_distinct show ?thesis by auto
  next
    case to_online
    with poll show ?thesis by auto
  next
    case stay
    with poll show ?thesis by auto
  qed
  then show "es = (if awayToOnlineGuard idleTime s
               then [emit ''status-change'' (Some (StatusChange STATUS_AWAY STATUS_ONLINE)) s,
                     emit ''status:online'' None s]
               else [])
              @ fst (forEachTimedEvent clk idleTime s' (timedEvents s)
                      (if awayToOnlineGuard idleTime s
                       then r\<lparr>dateNowCalls := Suc (dateNowCalls r)\<rparr> else r))"
    and "r' = snd (forEachTimedEvent clk idleTime s' (timedEvents s)
                      (if awayToOnlineGuard idleTime s
                       then r\<lparr>dateNowCalls := Suc (dateNowCalls r)\<rparr> else r))"
    and "userLastCameOnlineAt s' =
           (if awayToOnlineGuard idleTime s then Some (clk (dateNowCalls r))
            else userLastCameOnlineAt s)"
    and "events s' = events s"
    by simp_all
qed

lemma forEach_online_fires:
  assumes on: "currentStatus s = Some STATUS_ONLINE" and last: "userLastCameOnlineAt s = Some t0"
    and te: "te \<in> set tes" "status te = STATUS_ONLINE"
    and late: "\<forall>m\<ge>dateNowCalls r. int (duration te) \<le> clk m - t0"
  shows "\<exists>e\<in>set (fst (forEachTimedEvent clk idleTime s tes r)).
           ev_name e = timedEventName STATUS_ONLINE (duration te)"
proof -
  from te(1) obtain i where i: "i < length tes" "tes ! i = te"
    by (auto simp: in_set_conv_nth)
  let ?r1 = "snd (forEachTimedEvent clk idleTime s (take i tes) r)"
  from forEach_runtime[of r clk idleTime s "take i tes"]
  have "dateNowCalls r \<le> dateNowCalls ?r1" by auto
  with late have "int (duration te) \<le> clk (dateNowCalls ?r1) - t0" by simp
  with forEach_nth_online[OF on last i(1), of clk idleTime r] i(2) te(2)
  have "emit (timedEventName STATUS_ONLINE (duration te)) None s
          \<in> set (fst (forEachTimedEvent clk idleTime s tes r))"
    by simp
  then show ?thesis
    by (intro bexI[of _ "emit (timedEventName STATUS_ONLINE (duration te)) None s"])
       (simp_all add: emit_def)
qed

lemma pollTicks_online_fires:
  assumes "currentStatus s = Some STATUS_ONLINE" "userLastCameOnlineAt s = Some t0"
    and "te \<in> set (timedEvents s)" "status te = STATUS_ONLINE"
    and "\<forall>j\<in>set idleTimes. j < inactivityDuration s"
    and "\<forall>m\<ge>dateNowCalls r. int (duration te) \<le> clk m - t0"
    and "es \<in> set (pollTicks clk idleTimes (s, r))"
  shows "\<exists>e\<in>set es. ev_name e = timedEventName STATUS_ONLINE (duration te)"
  using assms
proof (induction idleTimes arbitrary: r)
  case Nil
  then show ?case by simp
next
  case (Cons j idleTimes)
  from Cons.prems(1,5) have g: "\<not> onlineToAwayGuard j s" "\<not> awayToOnlineGuard j s"
    using STATUS_distinct by (auto simp: onlineToAwayGuard_def awayToOnlineGuard_def)
  let ?fe = "forEachTimedEvent clk j s (timedEvents s) r"
  from pollStatus_no_transition[OF g, of clk r]
  have poll: "pollStatus clk j (s, r) = (Returned, (s, snd ?fe), fst ?fe)"
    by (simp add: case_prod_beta)
  from forEach_online_fires[OF Cons.prems(1,2,3,4,6), of j]
  have f: "\<exists>e\<in>set (fst ?fe). ev_name e = timedEventName STATUS_ONLINE (duration te)" .
  from forEach_runtime[of r clk j s "timedEvents s"]
  have "dateNowCalls r \<le> dateNowCalls (snd ?fe)" by auto
  with Cons.prems(6) have late: "\<forall>m\<ge>dateNowCalls (snd ?fe). int (duration te) \<le> clk m - t0"
    by simp
  from Cons.prems(7) poll have "es = fst ?fe \<or> es \<in> set (pollTicks clk idleTimes (s, snd ?fe))"
    by auto
  then show ?case
  proof
    assume "es = fst ?fe" with f show ?thesis by simp
  next
    assume "es \<in> set (pollTicks clk idleTimes (s, snd ?fe))"
    with Cons.IH[of "snd ?fe"] Cons.prems(1,2,3,4,5) late show ?thesis by simp
  qed
qed

lemma forEach_online_steady_clock:
  assumes on: "currentStatus s = Some STATUS_ONLINE" and last: "userLastCameOnlineAt s = Some t0"
    and steady: "\<forall>n\<ge>dateNowCalls r. clk n = now"
  shows "fst (forEachTimedEvent clk idleTime s tes r) =
     map (\<lambda>te. emit (timedEventName STATUS_ONLINE (duration te)) None s)
       (filter (\<lambda>te. status te = STATUS_ONLINE \<and> int (duration te) \<le> now - t0) tes)"
  using steady
proof (induction tes arbitrary: r)
  case Nil
  then show ?case by simp
next
  case (Cons te tes)
  from Cons.prems have now: "clk (dateNowCalls r) = now" by simp
  from Cons.prems have "\<forall>n\<ge>dateNowCalls (r\<lparr>dateNowCalls := Suc (dateNowCalls r)\<rparr>). clk n = now"
    by simp
  from Cons.IH[OF this] Cons.IH[OF Cons.prems] now show ?case
    by (simp add: timedEventCallback_online[OF on last] case_prod_beta)
qed

lemma forEach_online_name_iff:
  assumes on: "currentStatus s = Some STATUS_ONLINE" and last: "userLastCameOnlineAt s = Some t0"
    and steady: "\<forall>n\<ge>dateNowCalls r. clk n = now"
    and te: "te \<in> set tes" "status te = STATUS_ONLINE"
  shows "(\<exists>e\<in>set (fst (forEachTimedEvent clk idleTime s tes r)).
            ev_name e = timedEventName STATUS_ONLINE (duration te))
         \<longleftrightarrow> int (duration te) \<le> now - t0"
proof
  assume "\<exists>e\<in>set (fst (forEachTimedEvent clk idleTime s tes r)).
            ev_name e = timedEventName STATUS_ONLINE (duration te)"
  then obtain te' :: timed_event where "int (duration te') \<le> now - t0"
      "timedEventName STATUS_ONLINE (duration te') = timedEventName STATUS_ONLINE (duration te)"
    by (auto simp: forEach_online_steady_clock[OF on last steady] emit_def)
  then show "int (duration te) \<le> now - t0"
    by (simp add: timedEventName_inject)
next
  assume "int (duration te) \<le> now - t0"
  with te have
    "emit (timedEventName STATUS_ONLINE (duration te)) None s
       \<in> set (fst (forEachTimedEvent clk idleTime s tes r))"
    by (auto simp: forEach_online_steady_clock[OF on last steady])
  then show "\<exists>e\<in>set (fst (forEachTimedEvent clk idleTime s tes r)).
            ev_name e = timedEventName STATUS_ONLINE (duration te)"
    by (intro bexI[of _ "emit (timedEventName STATUS_ONLINE (duration te)) None s"])
       (simp_all add: emit_def)
qed

subsection \<open>The subscribed example\<close>

lemma exampleSubscribed_eq:
  "exampleSubscribed =
     \<lparr>inactivityDuration = 5000, pollInterval = 1000, pollIntervalId = None,
      timedEvents = [\<lparr>status = ''away'', duration = 3000, listener = 1\<rparr>,
                     \<lparr>status = ''online'', duration = 2000, listener = 2\<rparr>],
      userLastCameOnlineAt = Some 1000, currentStatus = Some ''online'',
      events = (\<lambda>_. [])(''away:3000'' := [1], ''online:2000'' := [2])\<rparr>"
  by (simp add: exampleSubscribed_def on_def super_on_def parse_eval exampleInstance_def)

lemmas example_eval =
  pollStatus_def onlineToAway_def awayToOnline_def onlineToAwayGuard_def awayToOnlineGuard_def
  setStatus_def Date_now_def timedEventCallback_def emit_def
  STATUS_AWAY_def STATUS_ONLINE_def exampleRuntime_def exampleClock_def
  timedEventName_examples exampleSubscribed_eq

lemma example_tick_to_away:
  "pollStatus exampleClock 8000 (exampleSubscribed, exampleRuntime) =
     (Returned,
      (exampleSubscribed\<lparr>userLastCameOnlineAt := None, currentStatus := Some ''away''\<rparr>,
       exampleRuntime),
      [\<lparr>ev_name = ''status-change'', ev_payload = Some (StatusChange ''online'' ''away''),
        ev_listeners = [], ev_seen_status = Some ''online''\<rparr>,
       \<lparr>ev_name = ''status:away'', ev_payload = None,
        ev_listeners = [], ev_seen_status = Some ''online''\<rparr>,
       \<lparr>ev_name = ''away:3000'', ev_payload = None,
        ev_listeners = [1], ev_seen_status = Some ''away''\<rparr>])"
  by (simp add: example_eval)

lemma example_tick_online:
  "pollStatus exampleClock 100 (exampleSubscribed, exampleRuntime\<lparr>dateNowCalls := 2000\<rparr>) =
     (Returned, (exampleSubscribed, exampleRuntime\<lparr>dateNowCalls := 2001\<rparr>),
      [\<lparr>ev_name = ''online:2000'', ev_payload = None,
        ev_listeners = [2], ev_seen_status = Some ''online''\<rparr>])"
  by (simp add: example_eval)

subsection \<open>Which listeners a tick calls\<close>

lemma tick_emissions:
  assumes poll: "pollStatus clk idleTime (s, r) = (out, (s', r'), es)" and e: "e \<in> set es"
  shows "ev_listeners e = events s (ev_name e)
       \<and> (ev_name e = ''status-change'' \<or> ev_name e = ''status:away''
          \<or> ev_name e = ''status:online''
          \<or> (\<exists>te\<in>set (timedEvents s). ev_name e = timedEventName (status te) (duration te)))"
proof -
  have fe: "ev_listeners e = events s (ev_name e)
      \<and> (\<exists>te\<in>set (timedEvents s). ev_name e = timedEventName (status te) (duration te))"
    if "e \<in> set (fst (forEachTimedEvent clk idleTime s2 (timedEvents s) r2))"
      and "events s2 = events s" for s2 r2
  proof -
    from forEach_emissions[OF that(1)] obtain te :: timed_event where
      te: "te \<in> set (timedEvents s)"
        "e = emit (timedEventName (status te) (duration te)) None s2"
      by blast
    from te(2) that(2) have "ev_listeners e = events s (ev_name e)"
      "ev_name e = timedEventName (status te) (duration te)"
      by (simp_all add: emit_def)
    with te(1) show ?thesis by blast
  qed
  show ?thesis
  proof (cases rule: pollStatus_cases[of idleTime s clk r])
    case to_away
    with poll e fe[of "s\<lparr>userLastCameOnlineAt := None, currentStatus := Some STATUS_AWAY\<rparr>" r]
    show ?thesis by (auto simp: emit_def)
  next
    case to_online
    with poll e fe[of "s\<lparr>userLastCameOnlineAt := Some (clk (dateNowCalls r)),
                    currentStatus := Some STATUS_ONLINE\<rparr>"
                 "r\<lparr>dateNowCalls := Suc (dateNowCalls r)\<rparr>"]
    show ?thesis by (auto simp: emit_def)
  next
    case stay
    with poll e fe[of s r] show ?thesis by auto
  qed
qed

lemma pollTicks_listener_not_called:
  assumes "\<forall>te\<in>set (timedEvents s). timedEventName (status te) (duration te) \<noteq> name"
    and "name \<noteq> ''status-change''" "name \<noteq> ''status:away''" "name \<noteq> ''status:online''"
    and "\<forall>n. n \<noteq> name \<longrightarrow> l \<notin> set (events s n)"
    and "es \<in> set (pollTicks clk idleTimes (s, r))" "e \<in> set es"
  shows "l \<notin> set (ev_listeners e)"
  using assms
proof (induction idleTimes arbitrary: s r)
  case Nil
  then show ?case by simp
next
  case (Cons i idleTimes)
  obtain out s' r' es' where poll: "pollStatus clk i (s, r) = (out, (s', r'), es')"
    by (metis prod.exhaust)
  from pollStatus_preserves[OF poll] have p: "timedEvents s' = timedEvents s"
    "events s' = events s" by simp_all
  from Cons.prems(6) poll have "es = es' \<or> es \<in> set (pollTicks clk idleTimes (s', r'))"
    by auto
  then show ?case
  proof
    assume "es = es'"
    with Cons.prems(7) have "e \<in> set es'" by simp
    from tick_emissions[OF poll this] Cons.prems(1-5) show ?thesis by auto
  next
    assume "es \<in> set (pollTicks clk idleTimes (s', r'))"
    from Cons.IH[of s' r', OF _ Cons.prems(2,3,4) _ this Cons.prems(7)] p Cons.prems(1,5)
    show ?thesis by simp
  qed
qed

section \<open>The claims\<close>

subsection \<open>C1: off and the registry\<close>

text \<open>
  C1 says that \<^verbatim>\<open>off("<status>:<n>", l)\<close> removes from the registry every entry with that
  status and duration, whatever its listener, and leaves every entry with another status
  or duration. The code does the opposite: its \<^verbatim>\<open>filter\<close> callback is the test for
  the entry to remove, and \<^verbatim>\<open>filter\<close> keeps the entries that pass. On a registry with the
  entries (away, 3000, listener 1), (online, 5, listener 2) and (away, 3000, listener 3),
  \<^verbatim>\<open>off("away:3000", 1)\<close> leaves exactly the entry of listener 1: the entry it was asked
  to remove stays, and the entry with another key is gone.
\<close>

theorem off_keeps_exactly_the_matching_entries:
  "timedEvents (off ''away:3000'' 1
      (exampleInstance\<lparr>timedEvents :=
         [\<lparr>status = ''away'', duration = 3000, listener = 1\<rparr>,
          \<lparr>status = ''online'', duration = 5, listener = 2\<rparr>,
          \<lparr>status = ''away'', duration = 3000, listener = 3\<rparr>]\<rparr>))
   = [\<lparr>status = ''away'', duration = 3000, listener = 1\<rparr>]"
  by (simp add: off_timedEvents parse_eval)

subsection \<open>C2: the transition from online to away\<close>

text \<open>
  C2: on a tick that starts with the status online, the instance goes away exactly when
  the sampled idle time has reached \<^verbatim>\<open>inactivityDuration\<close>, and a \<^verbatim>\<open>status-change\<close> event
  is emitted exactly then. On that transition the tick emits first \<^verbatim>\<open>status-change\<close>
  with the payload (online, away), then \<^verbatim>\<open>status:away\<close>, both while the instance still
  reads online; only then is the status set to away (and \<^verbatim>\<open>userLastCameOnlineAt\<close>
  cleared), and the timed events that follow see the status away. Without the transition
  the instance is unchanged and the tick emits only timed events.
\<close>

theorem pollStatus_online_to_away_tick:
  assumes "currentStatus s = Some STATUS_ONLINE"
    and "pollStatus clk idleTime (s, r) = (out, (s', r'), es)"
  shows "out = Returned
     \<and> (currentStatus s' = Some STATUS_AWAY \<longleftrightarrow> inactivityDuration s \<le> idleTime)
     \<and> ((\<exists>e\<in>set es. ev_name e = ''status-change'') \<longleftrightarrow> inactivityDuration s \<le> idleTime)
     \<and> (if inactivityDuration s \<le> idleTime
        then s' = s\<lparr>userLastCameOnlineAt := None, currentStatus := Some STATUS_AWAY\<rparr>
           \<and> es =
               [\<lparr>ev_name = ''status-change'',
                 ev_payload = Some (StatusChange STATUS_ONLINE STATUS_AWAY),
                 ev_listeners = events s ''status-change'',
                 ev_seen_status = Some STATUS_ONLINE\<rparr>,
                \<lparr>ev_name = ''status:away'', ev_payload = None,
                 ev_listeners = events s ''status:away'',
                 ev_seen_status = Some STATUS_ONLINE\<rparr>]
               @ fst (forEachTimedEvent clk idleTime s' (timedEvents s') r)
           \<and> list_all (\<lambda>e. ev_seen_status e = Some STATUS_AWAY)
                (fst (forEachTimedEvent clk idleTime s' (timedEvents s') r))
        else s' = s \<and> es = fst (forEachTimedEvent clk idleTime s (timedEvents s) r))"
proof (cases "inactivityDuration s \<le> idleTime")
  case True
  with assms(1) have g: "onlineToAwayGuard idleTime s" by (simp add: onlineToAwayGuard_def)
  let ?s' = "s\<lparr>userLastCameOnlineAt := None, currentStatus := Some STATUS_AWAY\<rparr>"
  from pollStatus_online_to_away[OF g, of clk r] assms(2)
  have o: "out = Returned" and s': "s' = ?s'"
    and es: "es = [emit ''status-change'' (Some (StatusChange STATUS_ONLINE STATUS_AWAY)) s,
           emit ''status:away'' None s] @ fst (forEachTimedEvent clk idleTime ?s' (timedEvents s) r)"
    by (auto simp: case_prod_beta Let_def)
  have seen: "list_all (\<lambda>e. ev_seen_status e = Some STATUS_AWAY)
                (fst (forEachTimedEvent clk idleTime ?s' (timedEvents s) r))"
    using forEach_names[of _ clk idleTime ?s' "timedEvents s" r] by (auto simp: list_all_iff)
  from o s' es seen True assms(1) show ?thesis
    by (simp add: emit_def)
next
  case False
  with assms(1) have g: "\<not> onlineToAwayGuard idleTime s" "\<not> awayToOnlineGuard idleTime s"
    using STATUS_distinct by (auto simp: onlineToAwayGuard_def awayToOnlineGuard_def)
  from pollStatus_no_transition[OF g, of clk r] assms(2)
  have o: "out = Returned" and s': "s' = s"
    and es: "es = fst (forEachTimedEvent clk idleTime s (timedEvents s) r)"
    by (auto simp: case_prod_beta Let_def)
  have "\<not> (\<exists>e\<in>set es. ev_name e = ''status-change'')"
    using forEach_names[of _ clk idleTime s "timedEvents s" r] es by auto
  with o s' es False assms(1) STATUS_distinct show ?thesis by simp
qed

theorem pollStatus_online_to_away_tick_witness:
  "snd (snd (pollStatus exampleClock 5000 (on ''away:0'' 1 exampleInstance, exampleRuntime)))
     = [\<lparr>ev_name = ''status-change'', ev_payload = Some (StatusChange ''online'' ''away''),
         ev_listeners = [], ev_seen_status = Some ''online''\<rparr>,
        \<lparr>ev_name = ''status:away'', ev_payload = None,
         ev_listeners = [], ev_seen_status = Some ''online''\<rparr>,
        \<lparr>ev_name = ''away:0'', ev_payload = None,
         ev_listeners = [1], ev_seen_status = Some ''away''\<rparr>]
   \<and> currentStatus (fst (fst (snd
        (pollStatus exampleClock 5000 (on ''away:0'' 1 exampleInstance, exampleRuntime)))))
       = Some ''away''
   \<and> snd (snd (pollStatus exampleClock 4999 (on ''away:0'' 1 exampleInstance, exampleRuntime)))
     = []"
  using pollStatus_online_to_away_tick[of "on ''away:0'' 1 exampleInstance" exampleClock 5000
      exampleRuntime
      "fst (pollStatus exampleClock 5000 (on ''away:0'' 1 exampleInstance, exampleRuntime))"
      "fst (fst (snd (pollStatus exampleClock 5000 (on ''away:0'' 1 exampleInstance, exampleRuntime))))"
      "snd (fst (snd (pollStatus exampleClock 5000 (on ''away:0'' 1 exampleInstance, exampleRuntime))))"
      "snd (snd (pollStatus exampleClock 5000 (on ''away:0'' 1 exampleInstance, exampleRuntime)))"]
    pollStatus_online_to_away_tick[of "on ''away:0'' 1 exampleInstance" exampleClock 4999
      exampleRuntime
      "fst (pollStatus exampleClock 4999 (on ''away:0'' 1 exampleInstance, exampleRuntime))"
      "fst (fst (snd (pollStatus exampleClock 4999 (on ''away:0'' 1 exampleInstance, exampleRuntime))))"
      "snd (fst (snd (pollStatus exampleClock 4999 (on ''away:0'' 1 exampleInstance, exampleRuntime))))"
      "snd (snd (pollStatus exampleClock 4999 (on ''away:0'' 1 exampleInstance, exampleRuntime)))"]
  by (simp add: tick_eval)

subsection \<open>C3: timed events while away\<close>

text \<open>
  C3: take an entry of the registry with status away and duration \<open>d\<close>, and a tick on
  which the status is away (at its start, or when the timed events are evaluated). The
  tick emits the event named \<^verbatim>\<open>away:<d>\<close> exactly when
  \<^verbatim>\<open>idleTime - inactivityDuration >= d\<close>. The condition is evaluated anew on every tick:
  on every later tick whose idle time satisfies it, the event is emitted again.
\<close>

theorem away_timed_event_level_triggered:
  assumes "pollStatus clk idleTime (s, r) = (out, (s', r'), es)"
    and "currentStatus s = Some STATUS_AWAY \<or> currentStatus s' = Some STATUS_AWAY"
    and "te \<in> set (timedEvents s)" "status te = STATUS_AWAY"
  shows "((\<exists>e\<in>set es. ev_name e = timedEventName STATUS_AWAY (duration te))
           \<longleftrightarrow> int (duration te) \<le> idleTime - inactivityDuration s)
       \<and> (\<forall>idleTimes. (\<forall>i\<in>set idleTimes. int (duration te) \<le> i - inactivityDuration s) \<longrightarrow>
            length (pollTicks clk idleTimes (s', r')) = length idleTimes
            \<and> (\<forall>es'\<in>set (pollTicks clk idleTimes (s', r')).
                  \<exists>e\<in>set es'. ev_name e = timedEventName STATUS_AWAY (duration te)))"
proof -
  from pollStatus_preserves[OF assms(1)] have p: "timedEvents s' = timedEvents s"
    "inactivityDuration s' = inactivityDuration s" by simp_all
  have st: "currentStatus s' = Some STATUS_AWAY \<or> currentStatus s' = Some STATUS_ONLINE"
  proof (cases "currentStatus s' = Some STATUS_AWAY")
    case True then show ?thesis by simp
  next
    case False
    with assms(2) have "currentStatus s = Some STATUS_AWAY" by simp
    from tick_status_after[OF assms(1)] this show ?thesis by auto
  qed
  have "\<And>idleTimes es'. \<forall>i\<in>set idleTimes. int (duration te) \<le> i - inactivityDuration s \<Longrightarrow>
       es' \<in> set (pollTicks clk idleTimes (s', r')) \<Longrightarrow>
       \<exists>e\<in>set es'. ev_name e = timedEventName STATUS_AWAY (duration te)"
    using pollTicks_away_fires[of s' te _ _ clk r'] st p assms(3,4) by simp
  with tick_away_name_iff[OF assms] pollTicks_length show ?thesis by blast
qed

theorem away_timed_event_level_triggered_witness:
  "(\<exists>e\<in>set (snd (snd (pollStatus exampleClock 8000 (exampleSubscribed, exampleRuntime)))).
      ev_name e = ''away:3000'')
   \<and> list_all (\<lambda>es. \<exists>e\<in>set es. ev_name e = ''away:3000'')
       (pollTicks exampleClock [8000, 9000]
          (exampleSubscribed\<lparr>userLastCameOnlineAt := None, currentStatus := Some ''away''\<rparr>,
           exampleRuntime))
   \<and> length (pollTicks exampleClock [8000, 9000]
          (exampleSubscribed\<lparr>userLastCameOnlineAt := None, currentStatus := Some ''away''\<rparr>,
           exampleRuntime)) = 2"
proof -
  let ?te = "\<lparr>status = ''away'', duration = 3000, listener = 1\<rparr>"
  have h2: "currentStatus exampleSubscribed = Some STATUS_AWAY
      \<or> currentStatus (exampleSubscribed\<lparr>userLastCameOnlineAt := None,
            currentStatus := Some ''away''\<rparr>) = Some STATUS_AWAY"
    by (simp add: STATUS_AWAY_def)
  have h3: "?te \<in> set (timedEvents exampleSubscribed)"
    by (simp add: exampleSubscribed_eq)
  have h4: "status ?te = STATUS_AWAY" by (simp add: STATUS_AWAY_def)
  note w = away_timed_event_level_triggered[OF example_tick_to_away h2 h3 h4]
  have c: "int (duration ?te) \<le> 8000 - inactivityDuration exampleSubscribed"
    by (simp add: exampleSubscribed_eq)
  from w[THEN conjunct1] c have a:
    "\<exists>e\<in>set (snd (snd (pollStatus exampleClock 8000 (exampleSubscribed, exampleRuntime)))).
      ev_name e = ''away:3000''"
    by (simp add: example_tick_to_away timedEventName_examples STATUS_AWAY_def)
  have "\<forall>i\<in>set [8000, 9000]. int (duration ?te) \<le> i - inactivityDuration exampleSubscribed"
    by (simp add: exampleSubscribed_eq)
  with w[THEN conjunct2, THEN spec, of "[8000, 9000]"] have b:
    "length (pollTicks exampleClock [8000, 9000]
          (exampleSubscribed\<lparr>userLastCameOnlineAt := None, currentStatus := Some ''away''\<rparr>,
           exampleRuntime)) = length [8000, 9000::int]
     \<and> (\<forall>es'\<in>set (pollTicks exampleClock [8000, 9000]
          (exampleSubscribed\<lparr>userLastCameOnlineAt := None, currentStatus := Some ''away''\<rparr>,
           exampleRuntime)).
           \<exists>e\<in>set es'. ev_name e = timedEventName STATUS_AWAY (duration ?te))"
    by blast
  from a b show ?thesis
    by (simp add: list_all_iff timedEventName_examples STATUS_AWAY_def)
qed

subsection \<open>C4: timed events while online\<close>

text \<open>
  C4: take the entry at position \<open>i\<close> of the registry, with status online and duration
  \<open>d\<close>, and a tick on which the status is online when the timed events are evaluated,
  \<open>t0\<close> being the time at which the instance last came online (the reading taken by
  this very tick when it made the transition from away). The callback for the entry reads
  \<^verbatim>\<open>Date.now()\<close> once, and emits \<^verbatim>\<open>online:<d>\<close> exactly when that reading \<open>now\<close> satisfies
  \<open>now - t0 \<ge> d\<close>: the emissions of the tick are those of the transition, those of the
  entries before, this one or nothing, and those of the entries after. When the clock
  does not move during the tick, the event named \<^verbatim>\<open>online:<d>\<close> is among the emissions
  of the tick exactly when \<open>now - t0 \<ge> d\<close>. Once the entry has fired, with a clock that
  never goes back, it fires on every later tick that leaves the status online.
\<close>

theorem online_timed_event_level_triggered:
  assumes poll: "pollStatus clk idleTime (s, r) = (out, (s', r'), es)"
    and on: "currentStatus s' = Some STATUS_ONLINE"
    and last: "userLastCameOnlineAt s' = Some t0"
    and i: "i < length (timedEvents s)"
    and te: "status (timedEvents s ! i) = STATUS_ONLINE" "duration (timedEvents s ! i) = d"
  shows
    "let r0 = (if awayToOnlineGuard idleTime s
               then r\<lparr>dateNowCalls := Suc (dateNowCalls r)\<rparr> else r);
         before = forEachTimedEvent clk idleTime s' (take i (timedEvents s)) r0;
         now = clk (dateNowCalls (snd before));
         fired = (if int d \<le> now - t0
                  then [\<lparr>ev_name = timedEventName STATUS_ONLINE d, ev_payload = None,
                         ev_listeners = events s (timedEventName STATUS_ONLINE d),
                         ev_seen_status = Some STATUS_ONLINE\<rparr>]
                  else []);
         after = forEachTimedEvent clk idleTime s' (drop (Suc i) (timedEvents s))
                   ((snd before)\<lparr>dateNowCalls := Suc (dateNowCalls (snd before))\<rparr>)
     in es = (if awayToOnlineGuard idleTime s
              then [emit ''status-change'' (Some (StatusChange STATUS_AWAY STATUS_ONLINE)) s,
                    emit ''status:online'' None s]
              else [])
             @ fst before @ fired @ fst after
      \<and> fst (timedEventCallback clk idleTime s' (timedEvents s ! i) (snd before)) = fired
      \<and> userLastCameOnlineAt s' =
           (if awayToOnlineGuard idleTime s then Some (clk (dateNowCalls r))
            else userLastCameOnlineAt s)
      \<and> ((\<forall>n\<ge>dateNowCalls r0. clk n = clk (dateNowCalls r0)) \<longrightarrow>
           ((\<exists>e\<in>set es. ev_name e = timedEventName STATUS_ONLINE d)
              \<longleftrightarrow> int d \<le> clk (dateNowCalls r0) - t0))
      \<and> (\<forall>idleTimes.
            (\<forall>m n. m \<le> n \<longrightarrow> clk m \<le> clk n) \<and> int d \<le> now - t0
            \<and> (\<forall>j\<in>set idleTimes. j < inactivityDuration s) \<longrightarrow>
            (\<forall>es'\<in>set (pollTicks clk idleTimes (s', r')).
               \<exists>e\<in>set es'. ev_name e = timedEventName STATUS_ONLINE d))"
proof -
  define r0 where "r0 = (if awayToOnlineGuard idleTime s
               then r\<lparr>dateNowCalls := Suc (dateNowCalls r)\<rparr> else r)"
  define tr where "tr = (if awayToOnlineGuard idleTime s
              then [emit ''status-change'' (Some (StatusChange STATUS_AWAY STATUS_ONLINE)) s,
                    emit ''status:online'' None s]
              else [])"
  define tes where "tes = timedEvents s"
  define before where "before = forEachTimedEvent clk idleTime s' (take i tes) r0"
  define now where "now = clk (dateNowCalls (snd before))"
  define fired where "fired = (if int d \<le> now - t0
                  then [emit (timedEventName STATUS_ONLINE d) None s'] else [])"
  define after where "after = forEachTimedEvent clk idleTime s' (drop (Suc i) tes)
                   ((snd before)\<lparr>dateNowCalls := Suc (dateNowCalls (snd before))\<rparr>)"
  note shape = tick_online_shape[OF poll on, folded r0_def tr_def tes_def]
  from pollStatus_preserves[OF poll]
  have pres: "timedEvents s' = tes" "inactivityDuration s' = inactivityDuration s"
    by (simp_all add: tes_def)
  have i': "i < length tes" and te': "status (tes ! i) = STATUS_ONLINE" "duration (tes ! i) = d"
    using i te by (simp_all add: tes_def)
  have ev: "emit (timedEventName STATUS_ONLINE d) None s'
      = \<lparr>ev_name = timedEventName STATUS_ONLINE d, ev_payload = None,
         ev_listeners = events s (timedEventName STATUS_ONLINE d),
         ev_seen_status = Some STATUS_ONLINE\<rparr>"
    using shape(4) on by (simp add: emit_def)
  have split: "fst (forEachTimedEvent clk idleTime s' tes r0) = fst before @ fired @ fst after"
    using forEach_nth_online[OF on last i' te'(1), of clk idleTime r0] te'(2)
    by (simp add: before_def fired_def after_def now_def)
  have a: "es = tr @ fst before @ fired @ fst after"
    using shape(1) split by simp
  have b: "fst (timedEventCallback clk idleTime s' (tes ! i) (snd before)) = fired"
    using te' by (simp add: timedEventCallback_online[OF on last] fired_def now_def)
  have trn: "\<forall>e\<in>set tr. ev_name e \<noteq> timedEventName STATUS_ONLINE d"
    using timedEventName_not_status[of STATUS_ONLINE d] by (auto simp: tr_def emit_def)
  have c: "(\<exists>e\<in>set es. ev_name e = timedEventName STATUS_ONLINE d)
              \<longleftrightarrow> int d \<le> clk (dateNowCalls r0) - t0"
    if steady: "\<forall>n\<ge>dateNowCalls r0. clk n = clk (dateNowCalls r0)"
  proof -
    from i' have m: "tes ! i \<in> set tes" by simp
    from forEach_online_name_iff[OF on last steady m te'(1), of idleTime] te'(2)
    have "(\<exists>e\<in>set (fst (forEachTimedEvent clk idleTime s' tes r0)).
              ev_name e = timedEventName STATUS_ONLINE d)
            \<longleftrightarrow> int d \<le> clk (dateNowCalls r0) - t0" by simp
    with shape(1) trn show ?thesis by auto
  qed
  have d: "\<exists>e\<in>set es'. ev_name e = timedEventName STATUS_ONLINE d"
    if mono: "\<forall>m n. m \<le> n \<longrightarrow> clk m \<le> clk n" and hit: "int d \<le> now - t0"
      and stay: "\<forall>j\<in>set idleTimes. j < inactivityDuration s"
      and es': "es' \<in> set (pollTicks clk idleTimes (s', r'))"
    for idleTimes es'
  proof -
    have "dateNowCalls (snd before) \<le> dateNowCalls r'"
    proof -
      have "dateNowCalls r' = dateNowCalls r0 + length (filter (\<lambda>te. status te = STATUS_ONLINE) tes)"
        using shape(2) forEach_online_calls[OF on, of clk idleTime tes r0] by simp
      moreover have "dateNowCalls (snd before)
          = dateNowCalls r0 + length (filter (\<lambda>te. status te = STATUS_ONLINE) (take i tes))"
        using forEach_online_calls[OF on, of clk idleTime "take i tes" r0] by (simp add: before_def)
      moreover have "length (filter (\<lambda>te. status te = STATUS_ONLINE) (take i tes))
          \<le> length (filter (\<lambda>te. status te = STATUS_ONLINE) tes)"
      proof -
        have "filter (\<lambda>te. status te = STATUS_ONLINE) tes
            = filter (\<lambda>te. status te = STATUS_ONLINE) (take i tes)
              @ filter (\<lambda>te. status te = STATUS_ONLINE) (drop i tes)"
          by (metis append_take_drop_id filter_append)
        then show ?thesis by simp
      qed
      ultimately show ?thesis by simp
    qed
    with mono hit have late: "\<forall>m\<ge>dateNowCalls r'. int d \<le> clk m - t0"
      unfolding now_def by (smt (verit) order_trans)
    from i' have m: "tes ! i \<in> set tes" by simp
    from pollTicks_online_fires[OF on last, of "tes ! i" idleTimes r' clk es']
      m te' pres stay late es'
    show ?thesis by simp
  qed
  have f: "(if int d \<le> now - t0
            then [\<lparr>ev_name = timedEventName STATUS_ONLINE d, ev_payload = None,
                   ev_listeners = events s (timedEventName STATUS_ONLINE d),
                   ev_seen_status = Some STATUS_ONLINE\<rparr>]
            else []) = fired"
    by (simp add: fired_def ev)
  show ?thesis
    unfolding Let_def r0_def[symmetric] tes_def[symmetric] before_def[symmetric]
      now_def[symmetric] after_def[symmetric] tr_def[symmetric] f
    using a b c d shape(3) by blast
qed

theorem online_timed_event_level_triggered_witness:
  "snd (snd (pollStatus exampleClock 100
       (exampleSubscribed, exampleRuntime\<lparr>dateNowCalls := 2000\<rparr>)))
     = [\<lparr>ev_name = ''online:2000'', ev_payload = None,
         ev_listeners = [2], ev_seen_status = Some ''online''\<rparr>]
   \<and> exampleClock 2000 - 1000 = 2000
   \<and> list_all (\<lambda>es. \<exists>e\<in>set es. ev_name e = ''online:2000'')
       (pollTicks exampleClock [100, 200]
          (exampleSubscribed, exampleRuntime\<lparr>dateNowCalls := 2001\<rparr>))"
proof -
  have h2: "currentStatus exampleSubscribed = Some STATUS_ONLINE"
    and h3: "userLastCameOnlineAt exampleSubscribed = Some 1000"
    and h4: "1 < length (timedEvents exampleSubscribed)"
    and h5: "status (timedEvents exampleSubscribed ! 1) = STATUS_ONLINE"
    and h6: "duration (timedEvents exampleSubscribed ! 1) = 2000"
    by (simp_all add: exampleSubscribed_eq STATUS_ONLINE_def)
  note w = online_timed_event_level_triggered[OF example_tick_online h2 h3 h4 h5 h6,
      unfolded Let_def]
  have g: "\<not> awayToOnlineGuard 100 exampleSubscribed"
    by (simp add: awayToOnlineGuard_def exampleSubscribed_eq STATUS_AWAY_def)
  have n: "dateNowCalls (snd (forEachTimedEvent exampleClock 100 exampleSubscribed
              (take 1 (timedEvents exampleSubscribed))
              (exampleRuntime\<lparr>dateNowCalls := 2000\<rparr>))) = 2000"
    by (simp add: example_eval)
  have mono: "\<forall>m n. m \<le> n \<longrightarrow> exampleClock m \<le> exampleClock n"
    by (simp add: exampleClock_def)
  have stay: "\<forall>j\<in>set [100, 200]. j < inactivityDuration exampleSubscribed"
    by (simp add: exampleSubscribed_eq)
  have hit: "int 2000 \<le> exampleClock 2000 - 1000" by (simp add: exampleClock_def)
  from w[THEN conjunct2, THEN conjunct2, THEN conjunct2, THEN conjunct2, THEN spec,
      of "[100, 200]"] g n mono stay hit
  have b: "\<forall>es'\<in>set (pollTicks exampleClock [100, 200]
          (exampleSubscribed, exampleRuntime\<lparr>dateNowCalls := 2001\<rparr>)).
           \<exists>e\<in>set es'. ev_name e = timedEventName STATUS_ONLINE 2000"
    by simp
  from b example_tick_online show ?thesis
    by (simp add: list_all_iff timedEventName_examples STATUS_ONLINE_def exampleClock_def)
qed

subsection \<open>C5: an invalid status\<close>

text \<open>
  C5: \<^verbatim>\<open>setStatus\<close> with a status other than \<^verbatim>\<open>away\<close> and \<^verbatim>\<open>online\<close> throws the
  invalid-status error and leaves the instance (and the runtime) as it was; the
  constructor given such an initial status throws the same error.
\<close>

theorem setStatus_rejects_invalid:
  assumes "st \<noteq> STATUS_AWAY" "st \<noteq> STATUS_ONLINE"
  shows "setStatus clk st (s, r) = (Threw (InvalidStatus st), s, r)
       \<and> constructor clk inactivity p (Some st) r = Inl (InvalidStatus st)"
  using assms by (simp add: constructor_def setStatus_invalid)

theorem setStatus_rejects_invalid_witness:
  "setStatus exampleClock ''busy'' (exampleInstance, exampleRuntime)
     = (Threw (InvalidStatus ''busy''), exampleInstance, exampleRuntime)
   \<and> constructor exampleClock 5000 None (Some ''busy'') exampleRuntime
     = Inl (InvalidStatus ''busy'')"
  using setStatus_rejects_invalid
    [of "''busy''" exampleClock exampleInstance exampleRuntime 5000 None]
  by (simp add: STATUS_AWAY_def STATUS_ONLINE_def)

subsection \<open>C6: a valid status\<close>

text \<open>
  C6: for a valid status \<open>st\<close>, \<^verbatim>\<open>setStatus(st)\<close> returns normally, the current status
  then reads \<open>st\<close>, and \<^verbatim>\<open>userLastCameOnlineAt\<close> is defined exactly when \<open>st\<close> is online:
  it is the reading of \<^verbatim>\<open>Date.now()\<close> for online, and cleared for away.
\<close>

theorem setStatus_valid:
  assumes "st = STATUS_ONLINE \<or> st = STATUS_AWAY"
    and "setStatus clk st (s, r) = (out, s', r')"
  shows "out = Returned \<and> currentStatus s' = Some st
       \<and> (userLastCameOnlineAt s' \<noteq> None \<longleftrightarrow> st = STATUS_ONLINE)
       \<and> (st = STATUS_ONLINE \<longrightarrow> userLastCameOnlineAt s' = Some (clk (dateNowCalls r)))
       \<and> (st = STATUS_AWAY \<longrightarrow> userLastCameOnlineAt s' = None)"
proof -
  have ne: "STATUS_ONLINE \<noteq> STATUS_AWAY"
    by (simp add: STATUS_AWAY_def STATUS_ONLINE_def)
  from assms(1) show ?thesis
  proof
    assume "st = STATUS_ONLINE"
    with assms(2) ne show ?thesis by (auto simp: setStatus_online)
  next
    assume "st = STATUS_AWAY"
    with assms(2) ne show ?thesis by (auto simp: setStatus_away)
  qed
qed

theorem setStatus_valid_witness:
  "currentStatus (fst (snd (setStatus exampleClock STATUS_AWAY (exampleInstance, exampleRuntime))))
     = Some STATUS_AWAY
   \<and> userLastCameOnlineAt
       (fst (snd (setStatus exampleClock STATUS_AWAY (exampleInstance, exampleRuntime)))) = None
   \<and> userLastCameOnlineAt
       (fst (snd (setStatus exampleClock STATUS_ONLINE
          (exampleInstance, exampleRuntime\<lparr>dateNowCalls := 7\<rparr>))))
       = Some 1007"
  using setStatus_valid[of STATUS_AWAY exampleClock exampleInstance exampleRuntime
      "fst (setStatus exampleClock STATUS_AWAY (exampleInstance, exampleRuntime))"
      "fst (snd (setStatus exampleClock STATUS_AWAY (exampleInstance, exampleRuntime)))"
      "snd (snd (setStatus exampleClock STATUS_AWAY (exampleInstance, exampleRuntime)))"]
    setStatus_valid[of STATUS_ONLINE exampleClock exampleInstance
      "exampleRuntime\<lparr>dateNowCalls := 7\<rparr>"
      "fst (setStatus exampleClock STATUS_ONLINE
         (exampleInstance, exampleRuntime\<lparr>dateNowCalls := 7\<rparr>))"
      "fst (snd (setStatus exampleClock STATUS_ONLINE
         (exampleInstance, exampleRuntime\<lparr>dateNowCalls := 7\<rparr>)))"
      "snd (snd (setStatus exampleClock STATUS_ONLINE
         (exampleInstance, exampleRuntime\<lparr>dateNowCalls := 7\<rparr>)))"]
  by (simp add: exampleClock_def)

subsection \<open>C7: which names reach the registry\<close>

text \<open>
  C7: \<^verbatim>\<open>on(name, l)\<close> adds an entry to the registry exactly when the name matches
  \<^verbatim>\<open>^(away|online):([0-9]+)$\<close>; the entry then carries a valid status and the listener.
  In every case the listener is appended to the listeners of the literal name in the
  general mechanism. \<^verbatim>\<open>status-change\<close> and \<^verbatim>\<open>online\<close> do not match and add nothing;
  \<^verbatim>\<open>away:0\<close> parses as a timed event of status away and duration 0, and is added.
\<close>

theorem on_registers_timed_names_only:
  "(timedEvents (on eventName l s) \<noteq> timedEvents s \<longleftrightarrow> matchesTimedPattern eventName)
   \<and> (if matchesTimedPattern eventName
      then \<exists>st d. (st = STATUS_AWAY \<or> st = STATUS_ONLINE)
             \<and> timedEvents (on eventName l s)
                 = timedEvents s @ [\<lparr>status = st, duration = d, listener = l\<rparr>]
      else timedEvents (on eventName l s) = timedEvents s)
   \<and> events (on eventName l s) = (events s)(eventName := events s eventName @ [l])
   \<and> \<not> matchesTimedPattern ''status-change'' \<and> \<not> matchesTimedPattern ''online''
   \<and> timedEvents (on ''status-change'' l s) = timedEvents s
   \<and> timedEvents (on ''online'' l s) = timedEvents s
   \<and> parseEventName ''away:0''
       = \<lparr>isTimedEvent = True, infoStatus = Some STATUS_AWAY, infoDuration = Some 0\<rparr>
   \<and> timedEvents (on ''away:0'' l s)
       = timedEvents s @ [\<lparr>status = STATUS_AWAY, duration = 0, listener = l\<rparr>]"
proof -
  have a: "timedEvents (on eventName l s) \<noteq> timedEvents s \<longleftrightarrow> matchesTimedPattern eventName"
    using timedKey_iff_pattern[of eventName]
    by (auto simp: on_timedEvents split: option.splits)
  have b: "if matchesTimedPattern eventName
      then \<exists>st d. (st = STATUS_AWAY \<or> st = STATUS_ONLINE)
             \<and> timedEvents (on eventName l s)
                 = timedEvents s @ [\<lparr>status = st, duration = d, listener = l\<rparr>]
      else timedEvents (on eventName l s) = timedEvents s"
  proof (cases "timedKey (parseEventName eventName)")
    case None
    then show ?thesis using timedKey_iff_pattern[of eventName] by (simp add: on_timedEvents)
  next
    case (Some k)
    obtain st d where k: "k = (st, d)" by (cases k)
    from timedKey_parse_SomeD[OF Some[unfolded k]] Some k timedKey_iff_pattern[of eventName]
    show ?thesis by (auto simp: on_timedEvents)
  qed
  have c: "\<not> matchesTimedPattern ''status-change''" "\<not> matchesTimedPattern ''online''"
    using timedKey_iff_pattern[of "''status-change''"] timedKey_iff_pattern[of "''online''"]
    by (simp_all add: parse_eval)
  have d: "timedEvents (on ''status-change'' l s) = timedEvents s"
     "timedEvents (on ''online'' l s) = timedEvents s"
    by (simp_all add: on_timedEvents parse_eval)
  have e: "parseEventName ''away:0''
       = \<lparr>isTimedEvent = True, infoStatus = Some STATUS_AWAY, infoDuration = Some 0\<rparr>"
    by (simp add: parse_eval)
  have f: "timedEvents (on ''away:0'' l s)
       = timedEvents s @ [\<lparr>status = STATUS_AWAY, duration = 0, listener = l\<rparr>]"
    by (simp add: on_timedEvents parse_eval)
  from a b c d e f on_events show ?thesis by simp
qed

theorem on_registers_timed_names_only_witness:
  "matchesTimedPattern ''away:3000''
   \<and> timedEvents (on ''away:3000'' 1 exampleInstance)
       = [\<lparr>status = ''away'', duration = 3000, listener = 1\<rparr>]
   \<and> timedEvents (on ''status-change'' 5 exampleInstance) = []
   \<and> events (on ''status-change'' 5 exampleInstance) ''status-change'' = [5]"
  using on_registers_timed_names_only[of "''away:3000''" 1 exampleInstance]
    on_registers_timed_names_only[of "''status-change''" 5 exampleInstance]
  by (simp add: on_timedEvents parse_eval exampleInstance_def)

subsection \<open>C8: destroy and init\<close>

text \<open>
  C8: \<^verbatim>\<open>destroy()\<close> empties the registry and the listener table, and when the instance
  holds a timer handle the timer is no longer live (without one the runtime is untouched).
  \<^verbatim>\<open>init()\<close> is this teardown followed by a new live timer of period \<^verbatim>\<open>pollInterval\<close>,
  whose handle the instance keeps. After \<^verbatim>\<open>destroy()\<close> and then \<^verbatim>\<open>init()\<close> the registry
  and the listener table are empty.
\<close>

theorem destroy_then_init:
  "timedEvents (fst (destroy (s, r))) = []
   \<and> events (fst (destroy (s, r))) = (\<lambda>_. [])
   \<and> (case pollIntervalId s of
        Some t \<Rightarrow> t \<notin> fst ` set (intervals (snd (destroy (s, r))))
      | None \<Rightarrow> snd (destroy (s, r)) = r)
   \<and> init (s, r) =
       (let (s1, r1) = destroy (s, r) in
        (s1\<lparr>pollIntervalId := Some (nextTimerId r1)\<rparr>,
         r1\<lparr>intervals := intervals r1 @ [(nextTimerId r1, pollInterval s1)],
            nextTimerId := Suc (nextTimerId r1)\<rparr>))
   \<and> timedEvents (fst (init (destroy (s, r)))) = []
   \<and> events (fst (init (destroy (s, r)))) = (\<lambda>_. [])
   \<and> pollIntervalId (fst (init (destroy (s, r)))) = Some (nextTimerId r)
   \<and> (nextTimerId r, pollInterval s) \<in> set (intervals (snd (init (destroy (s, r)))))"
proof -
  have a: "timedEvents (fst (destroy (s, r))) = []" "events (fst (destroy (s, r))) = (\<lambda>_. [])"
    by (simp_all add: destroy_eq)
  have b: "case pollIntervalId s of
        Some t \<Rightarrow> t \<notin> fst ` set (intervals (snd (destroy (s, r))))
      | None \<Rightarrow> snd (destroy (s, r)) = r"
    by (simp add: destroy_eq clearInterval_stops split: option.splits)
  have c: "timedEvents (fst (init (destroy (s, r)))) = []"
      "events (fst (init (destroy (s, r)))) = (\<lambda>_. [])"
      "pollIntervalId (fst (init (destroy (s, r)))) = Some (nextTimerId r)"
      "(nextTimerId r, pollInterval s) \<in> set (intervals (snd (init (destroy (s, r)))))"
    by (simp_all add: init_eq destroy_eq clearInterval_nextTimerId split: option.splits)
  from a b c init_eq[of "(s, r)"] show ?thesis by simp
qed

theorem destroy_then_init_witness:
  "(let s = exampleInstance\<lparr>pollIntervalId := Some 1,
              timedEvents := [\<lparr>status = ''away'', duration = 3000, listener = 4\<rparr>],
              events := (\<lambda>_. [])(''away:3000'' := [4])\<rparr>;
        r = \<lparr>dateNowCalls = 1, intervals = [(1, 1000)], nextTimerId = 2\<rparr>
    in intervals (snd (destroy (s, r))) = []
     \<and> timedEvents (fst (destroy (s, r))) = []
     \<and> events (fst (destroy (s, r))) ''away:3000'' = []
     \<and> intervals (snd (init (destroy (s, r)))) = [(2, 1000)]
     \<and> pollIntervalId (fst (init (destroy (s, r)))) = Some 2
     \<and> timedEvents (fst (init (destroy (s, r)))) = [])"
  using destroy_then_init[of "exampleInstance\<lparr>pollIntervalId := Some 1,
              timedEvents := [\<lparr>status = ''away'', duration = 3000, listener = 4\<rparr>],
              events := (\<lambda>_. [])(''away:3000'' := [4])\<rparr>"
          "\<lparr>dateNowCalls = 1, intervals = [(1, 1000)], nextTimerId = 2\<rparr>"]
  by (simp add: Let_def destroy_eq init_eq clearInterval_def exampleInstance_def)

subsection \<open>C9: at most one transition per tick\<close>

text \<open>
  C9: the guard of the second transition never holds on the instance that the first
  transition leaves when the first guard held, for the same sampled idle time; and a tick
  emits \<^verbatim>\<open>status-change\<close> once when one of the two guards holds at its start and not at
  all otherwise, so at most once.
\<close>

theorem one_transition_per_tick:
  "\<not> (onlineToAwayGuard idleTime s \<and>
       awayToOnlineGuard idleTime (fst (fst (snd (onlineToAway clk idleTime (s, r))))))
   \<and> length (filter (\<lambda>e. ev_name e = ''status-change'')
        (snd (snd (pollStatus clk idleTime (s, r)))))
      = (if onlineToAwayGuard idleTime s \<or> awayToOnlineGuard idleTime s then 1 else 0)
   \<and> length (filter (\<lambda>e. ev_name e = ''status-change'')
        (snd (snd (pollStatus clk idleTime (s, r))))) \<le> 1"
proof -
  have c: "length (filter (\<lambda>e. ev_name e = ''status-change'')
        (snd (snd (pollStatus clk idleTime (s, r)))))
      = (if onlineToAwayGuard idleTime s \<or> awayToOnlineGuard idleTime s then 1 else 0)"
  proof (cases rule: pollStatus_cases[of idleTime s clk r])
    case to_away
    then show ?thesis by (simp add: count_status_change_forEach emit_def)
  next
    case to_online
    then show ?thesis by (simp add: count_status_change_forEach emit_def)
  next
    case stay
    then show ?thesis by (simp add: count_status_change_forEach)
  qed
  from c guards_exclusive[of idleTime s clk r] show ?thesis by simp
qed

theorem one_transition_per_tick_witness:
  "length (filter (\<lambda>e. ev_name e = ''status-change'')
        (snd (snd (pollStatus exampleClock 5000 (exampleInstance, exampleRuntime))))) = 1"
  using one_transition_per_tick[of 5000 exampleInstance exampleClock exampleRuntime]
  by (simp add: onlineToAwayGuard_def exampleInstance_def STATUS_ONLINE_def)

subsection \<open>C10: a duration written with leading zeros\<close>

text \<open>
  C10: after \<^verbatim>\<open>on("away:007", l)\<close> on the example instance, the registry holds the entry
  (away, 7, \<open>l\<close>) and \<open>l\<close> is registered under the literal name \<^verbatim>\<open>away:007\<close> only.
  A tick that makes the instance away with seven units of away time emits the event
  named \<^verbatim>\<open>away:7\<close>, which has no listener; and whatever the idle times and the clock,
  no emission of any tick calls \<open>l\<close>.
\<close>

theorem leading_zeros_listener_never_called:
  "timedEvents (on ''away:007'' l exampleInstance)
     = [\<lparr>status = ''away'', duration = 7, listener = l\<rparr>]
   \<and> events (on ''away:007'' l exampleInstance) = (\<lambda>_. [])(''away:007'' := [l])
   \<and> snd (snd (pollStatus clk 5007 (on ''away:007'' l exampleInstance, r)))
     = [\<lparr>ev_name = ''status-change'', ev_payload = Some (StatusChange ''online'' ''away''),
         ev_listeners = [], ev_seen_status = Some ''online''\<rparr>,
        \<lparr>ev_name = ''status:away'', ev_payload = None,
         ev_listeners = [], ev_seen_status = Some ''online''\<rparr>,
        \<lparr>ev_name = ''away:7'', ev_payload = None,
         ev_listeners = [], ev_seen_status = Some ''away''\<rparr>]
   \<and> (\<forall>idleTimes. \<forall>es\<in>set (pollTicks clk idleTimes (on ''away:007'' l exampleInstance, r)).
         \<forall>e\<in>set es. l \<notin> set (ev_listeners e))"
proof -
  let ?s = "on ''away:007'' l exampleInstance"
  have a: "timedEvents ?s = [\<lparr>status = ''away'', duration = 7, listener = l\<rparr>]"
    by (simp add: on_timedEvents parse_eval exampleInstance_def)
  have b: "events ?s = (\<lambda>_. [])(''away:007'' := [l])"
    by (simp add: on_events exampleInstance_def)
  have s: "?s = exampleInstance\<lparr>timedEvents := [\<lparr>status = ''away'', duration = 7, listener = l\<rparr>],
                  events := (\<lambda>_. [])(''away:007'' := [l])\<rparr>"
    by (simp add: on_def super_on_def parse_eval exampleInstance_def)
  have c: "snd (snd (pollStatus clk 5007 (?s, r)))
     = [\<lparr>ev_name = ''status-change'', ev_payload = Some (StatusChange ''online'' ''away''),
         ev_listeners = [], ev_seen_status = Some ''online''\<rparr>,
        \<lparr>ev_name = ''status:away'', ev_payload = None,
         ev_listeners = [], ev_seen_status = Some ''online''\<rparr>,
        \<lparr>ev_name = ''away:7'', ev_payload = None,
         ev_listeners = [], ev_seen_status = Some ''away''\<rparr>]"
    unfolding s
    by (simp add: pollStatus_def onlineToAway_def awayToOnline_def onlineToAwayGuard_def
        awayToOnlineGuard_def setStatus_def timedEventCallback_def emit_def
        STATUS_AWAY_def STATUS_ONLINE_def exampleInstance_def timedEventName_examples)
  have d: "l \<notin> set (ev_listeners e)"
    if "es \<in> set (pollTicks clk idleTimes (?s, r))" "e \<in> set es" for idleTimes es e
  proof (rule pollTicks_listener_not_called[of ?s "''away:007''" l es clk idleTimes r e])
    show "\<forall>te\<in>set (timedEvents ?s). timedEventName (status te) (duration te) \<noteq> ''away:007''"
      by (simp add: a timedEventName_examples)
    show "\<forall>n. n \<noteq> ''away:007'' \<longrightarrow> l \<notin> set (events ?s n)"
      by (simp add: b)
  qed (use that in simp_all)
  from a b c d show ?thesis by blast
qed

theorem leading_zeros_listener_never_called_witness:
  "timedEvents (on ''away:007'' 3 exampleInstance)
     = [\<lparr>status = ''away'', duration = 7, listener = 3\<rparr>]
   \<and> map (map (\<lambda>e. (ev_name e, ev_listeners e)))
       (pollTicks exampleClock [5007, 6000, 10] (on ''away:007'' 3 exampleInstance, exampleRuntime))
     = [[(''status-change'', []), (''status:away'', []), (''away:7'', [])],
        [(''away:7'', [])],
        [(''status-change'', []), (''status:online'', [])]]"
proof -
  note w = leading_zeros_listener_never_called[of 3 exampleClock exampleRuntime]
  have s: "on ''away:007'' 3 exampleInstance
      = exampleInstance\<lparr>timedEvents := [\<lparr>status = ''away'', duration = 7, listener = 3\<rparr>],
                  events := (\<lambda>_. [])(''away:007'' := [3])\<rparr>"
    by (simp add: on_def super_on_def parse_eval exampleInstance_def)
  have "map (map (\<lambda>e. (ev_name e, ev_listeners e)))
       (pollTicks exampleClock [5007, 6000, 10] (on ''away:007'' 3 exampleInstance, exampleRuntime))
     = [[(''status-change'', []), (''status:away'', []), (''away:7'', [])],
        [(''away:7'', [])],
        [(''status-change'', []), (''status:online'', [])]]"
    unfolding s
    by (simp add: pollStatus_def onlineToAway_def awayToOnline_def onlineToAwayGuard_def
        awayToOnlineGuard_def setStatus_def timedEventCallback_def emit_def Date_now_def
        STATUS_AWAY_def STATUS_ONLINE_def exampleInstance_def timedEventName_examples)
  with w[THEN conjunct1] show ?thesis by simp
qed

end
